theory Spec2Isabelle
  imports Main "HOL-Library.AList"
begin

section \<open>Configuration values\<close>

text \<open>
  The configuration is whatever \<^verbatim>\<open>YAML.load\<close> or \<^verbatim>\<open>readJSONSync\<close> parsed: a tree of
  JavaScript values. An object is an association list of its own properties (a parsed
  object holds each key once; lookup takes the first entry), a sequence is a list. A
  property that is absent reads as \<^verbatim>\<open>undefined\<close>, which is \<open>None\<close> of a lookup. Numbers
  are the integers the configuration uses, and \<open>JNaN\<close> is what \<^verbatim>\<open>parseInt\<close> gives on a
  string with no leading digits.
\<close>

datatype json =
    JNull
  | JBool bool
  | JNum int
  | JNaN
  | JStr string
  | JArr "json list"
  | JObj "(string \<times> json) list"

type_synonym fields = "(string \<times> json) list"

text \<open>JavaScript truthiness: \<^verbatim>\<open>if (v)\<close> and \<^verbatim>\<open>!v\<close>.\<close>

fun truthy :: "json \<Rightarrow> bool" where
  "truthy JNull = False"
| "truthy (JBool b) = b"
| "truthy (JNum n) = (n \<noteq> 0)"
| "truthy JNaN = False"
| "truthy (JStr s) = (s \<noteq> [])"
| "truthy (JArr xs) = True"
| "truthy (JObj fs) = True"

text \<open>\<^verbatim>\<open>isObject\<close> of lodash: objects and arrays.\<close>

fun isObject :: "json \<Rightarrow> bool" where
  "isObject (JArr xs) = True"
| "isObject (JObj fs) = True"
| "isObject v = False"

fun isArray :: "json \<Rightarrow> bool" where
  "isArray (JArr xs) = True"
| "isArray v = False"

text \<open>Property read \<^verbatim>\<open>v.k\<close> on a value that is not null: \<open>None\<close> is \<^verbatim>\<open>undefined\<close>.\<close>

fun get_prop :: "json \<Rightarrow> string \<Rightarrow> json option" where
  "get_prop (JObj fs) k = map_of fs k"
| "get_prop v k = None"

text \<open>
  Property write \<^verbatim>\<open>o.k = v\<close> on an object: an existing key keeps its place, a new one
  is added at the end.
\<close>

fun set_prop :: "string \<Rightarrow> json \<Rightarrow> json \<Rightarrow> json" where
  "set_prop k v (JObj fs) = JObj (AList.update k v fs)"
| "set_prop k v w = w"

subsection \<open>Dotted paths\<close>

text \<open>
  \<^verbatim>\<open>_.has(o, 'a.b.c')\<close> and \<^verbatim>\<open>_.get\<close> walk own properties. The segments of the paths
  this program uses are names, never indices or \<^verbatim>\<open>length\<close>, so a walk through a
  sequence, a string or another scalar finds nothing.
\<close>

primrec get_path :: "string list \<Rightarrow> json \<Rightarrow> json option" where
  "get_path [] v = Some v"
| "get_path (k # ks) v =
     (case v of
        JObj fs \<Rightarrow> (case map_of fs k of None \<Rightarrow> None | Some u \<Rightarrow> get_path ks u)
      | _ \<Rightarrow> None)"

definition has_path :: "json \<Rightarrow> string list \<Rightarrow> bool" where
  "has_path v p = (get_path p v \<noteq> None)"

text \<open>The first entry with key \<open>k\<close> gets its value replaced; the others stay.\<close>

fun map_entry :: "string \<Rightarrow> (json \<Rightarrow> json) \<Rightarrow> fields \<Rightarrow> fields" where
  "map_entry k f [] = []"
| "map_entry k f (kv # fs) =
     (if fst kv = k then (fst kv, f (snd kv)) # fs else kv # map_entry k f fs)"

text \<open>
  In-place change of the value at a path that exists (\<^verbatim>\<open>_.set(o, p, f(_.get(o, p)))\<close>
  under \<^verbatim>\<open>_.has(o, p)\<close>); a path that does not exist changes nothing.
\<close>

primrec modify_path :: "string list \<Rightarrow> (json \<Rightarrow> json) \<Rightarrow> json \<Rightarrow> json" where
  "modify_path [] f v = f v"
| "modify_path (k # ks) f v =
     (case v of JObj fs \<Rightarrow> JObj (map_entry k (modify_path ks f) fs) | _ \<Rightarrow> v)"

subsection \<open>The Array Normalizer\<close>

text \<open>\<^verbatim>\<open>_.castArray\<close>: a sequence is returned as it is, anything else is wrapped.\<close>

fun lodash_castArray :: "json \<Rightarrow> json" where
  "lodash_castArray (JArr xs) = JArr xs"
| "lodash_castArray v = JArr [v]"

text \<open>
  Modelled from the spec: \<^verbatim>\<open>castArray\<close> of \<^verbatim>\<open>./utils/config\<close>, which is imported by the
  source file and is not part of it. The specification of the Array Normalizer: "for each
  target path, if the value at that path exists and is not already a sequence, replace it
  with a single-element sequence containing that value; if it is already a sequence or
  the path does not exist, do nothing."
\<close>

definition castArray :: "json \<Rightarrow> string list \<Rightarrow> json" where
  "castArray obj p = (if has_path obj p then modify_path p lodash_castArray obj else obj)"

text \<open>
  \<^verbatim>\<open>_.keys(m).forEach(key => g(m[key]))\<close> where \<open>g\<close> changes \<^verbatim>\<open>m[key]\<close> in place: every
  own key of an object, every index of a sequence. The characters of a string and the
  other scalars have no properties to change.
\<close>

fun forEach_key :: "(json \<Rightarrow> json) \<Rightarrow> json \<Rightarrow> json" where
  "forEach_key g (JObj fs) = JObj (map (\<lambda>kv. (fst kv, g (snd kv))) fs)"
| "forEach_key g (JArr xs) = JArr (map g xs)"
| "forEach_key g v = v"

definition castCacheEntry :: "json \<Rightarrow> json" where
  "castCacheEntry e = castArray e [''server'', ''preserveHeaders'']"

definition castCorsEntry :: "json \<Rightarrow> json" where
  "castCorsEntry e =
     castArray (castArray (castArray e [''allowedHeaders'']) [''exposedHeaders'']) [''methods'']"

definition castArrays :: "json \<Rightarrow> json" where
  "castArrays server =
     (let s1 = castArray server [''database'', ''redis'', ''cluster''];
          s2 = castArray s1 [''database'', ''redis'', ''sentinel'', ''nodes''];
          s3 = castArray s2 [''gateway'', ''filter''];
          s4 = castArray s3 [''gateway'', ''admin'', ''filter''];
          s5 = castArray s4 [''gateway'', ''serviceDiscovery'', ''provider''];
          s6 = castArray s5 [''gateway'', ''logger'', ''console'', ''stderrLevels''];
          s7 = castArray s6 [''gateway'', ''accessLogger'', ''console'', ''stderrLevels''];
          s8 = (if has_path s7 [''gateway'', ''config'', ''cache'']
                then modify_path [''gateway'', ''config'', ''cache'']
                       (forEach_key castCacheEntry) s7
                else s7);
          s9 = (if has_path s8 [''gateway'', ''config'', ''cors'']
                then modify_path [''gateway'', ''config'', ''cors'']
                       (forEach_key castCorsEntry) s8
                else s8)
      in s9)"


subsection \<open>Merging with fallback: \<^verbatim>\<open>_.defaults\<close> and \<^verbatim>\<open>_.defaultsDeep\<close>\<close>

text \<open>
  \<^verbatim>\<open>_.defaults(o, {k: v})\<close> writes \<open>v\<close> when \<^verbatim>\<open>o.k\<close> is \<^verbatim>\<open>undefined\<close>; a key that is
  there, also with the value null, is kept.
\<close>

fun defaults1 :: "json \<Rightarrow> string \<Rightarrow> json \<Rightarrow> json" where
  "defaults1 (JObj fs) k v = (case map_of fs k of None \<Rightarrow> JObj (fs @ [(k, v)]) | Some u \<Rightarrow> JObj fs)"
| "defaults1 w k v = w"

text \<open>
  \<^verbatim>\<open>_.defaultsDeep(object, source)\<close> is \<^verbatim>\<open>mergeWith\<close> with the customizer
  \<^verbatim>\<open>customDefaultsMerge\<close>: \<^verbatim>\<open>baseMerge\<close> goes through the keys of the source; a key the
  object does not have receives a copy of the source's value; a key it has keeps its
  value, except that when both values are objects in the sense of \<^verbatim>\<open>isObject\<close> (plain
  objects and arrays alike) the source's value is merged into the object's in the same
  way. Two sequences are therefore merged index by index. An object that meets a
  sequence receives its indices as keys. A sequence that meets a plain object would
  receive named properties, which a sequence of this value type cannot hold (nor can
  YAML or JSON): it is kept as it is.
\<close>

fun digit_string :: "nat \<Rightarrow> string" where
  "digit_string n =
     (if n < 10 then [''0123456789'' ! n]
      else digit_string (n div 10) @ [''0123456789'' ! (n mod 10)])"

declare digit_string.simps [simp del]

fun customDefaultsMerge :: "json \<Rightarrow> json \<Rightarrow> json"
  and merge_fields :: "fields \<Rightarrow> fields \<Rightarrow> fields"
  and merge_indexed :: "fields \<Rightarrow> nat \<Rightarrow> json list \<Rightarrow> fields"
  and merge_elems :: "json list \<Rightarrow> json list \<Rightarrow> json list"
where
  "customDefaultsMerge (JObj fs) (JObj ss) = JObj (merge_fields fs ss)"
| "customDefaultsMerge (JObj fs) (JArr ys) = JObj (merge_indexed fs 0 ys)"
| "customDefaultsMerge (JArr xs) (JArr ys) = JArr (merge_elems xs ys)"
| "customDefaultsMerge v w = v"
| "merge_fields fs [] = fs"
| "merge_fields fs (kv # ss) =
     merge_fields
       (case map_of fs (fst kv) of
          None \<Rightarrow> fs @ [(fst kv, snd kv)]
        | Some ov \<Rightarrow> AList.update (fst kv) (customDefaultsMerge ov (snd kv)) fs)
       ss"
| "merge_indexed fs i [] = fs"
| "merge_indexed fs i (y # ys) =
     merge_indexed
       (case map_of fs (digit_string i) of
          None \<Rightarrow> fs @ [(digit_string i, y)]
        | Some ov \<Rightarrow> AList.update (digit_string i) (customDefaultsMerge ov y) fs)
       (Suc i) ys"
| "merge_elems xs [] = xs"
| "merge_elems [] (y # ys) = y # ys"
| "merge_elems (x # xs) (y # ys) = customDefaultsMerge x y # merge_elems xs ys"

text \<open>
  The call itself: a source that is falsy (a missing file reads as null, a missing
  property as \<^verbatim>\<open>undefined\<close>) is skipped by \<^verbatim>\<open>createAssigner\<close>. The characters of a string
  source are its indexed properties. A scalar object value is boxed by \<^verbatim>\<open>Object(object)\<close>;
  the properties of the box are outside this value type and the scalar is returned.
\<close>

definition defaultsDeep :: "json \<Rightarrow> json option \<Rightarrow> json" where
  "defaultsDeep object source =
     (case source of
        None \<Rightarrow> object
      | Some src \<Rightarrow>
          if \<not> truthy src then object
          else (case src of
                  JStr cs \<Rightarrow> customDefaultsMerge object (JArr (map (\<lambda>c. JStr [c]) cs))
                | _ \<Rightarrow> customDefaultsMerge object src))"

subsection \<open>The Variable Interpolator: \<^verbatim>\<open>deepMapValues\<close> of lodash-deep\<close>

text \<open>Every leaf (a value that is neither a sequence nor an object) goes through the callback.\<close>

fun deepMapValues :: "(json \<Rightarrow> json) \<Rightarrow> json \<Rightarrow> json"
  and deepMapFields :: "(json \<Rightarrow> json) \<Rightarrow> fields \<Rightarrow> fields"
  and deepMapElems :: "(json \<Rightarrow> json) \<Rightarrow> json list \<Rightarrow> json list"
where
  "deepMapValues f (JArr xs) = JArr (deepMapElems f xs)"
| "deepMapValues f (JObj fs) = JObj (deepMapFields f fs)"
| "deepMapValues f v = f v"
| "deepMapFields f [] = []"
| "deepMapFields f (kv # fs) = (fst kv, deepMapValues f (snd kv)) # deepMapFields f fs"
| "deepMapElems f [] = []"
| "deepMapElems f (x # xs) = deepMapValues f x # deepMapElems f xs"

section \<open>Strings and paths\<close>

definition startsWith_dot :: "string \<Rightarrow> bool" where
  "startsWith_dot s = (case s of [] \<Rightarrow> False | c # cs \<Rightarrow> c = CHR ''.'')"

text \<open>
  \<^verbatim>\<open>_.startsWith(v, '.')\<close> converts \<open>v\<close> with lodash's \<^verbatim>\<open>toString\<close> first: null and
  \<^verbatim>\<open>undefined\<close> give the empty string, a sequence the texts of its elements joined by
  commas (so it starts like its first element), an object \<^verbatim>\<open>[object Object]\<close>; the text
  of a number or a boolean does not start with a dot.
\<close>

fun lodash_startsWith_dot :: "json \<Rightarrow> bool" where
  "lodash_startsWith_dot (JStr s) = startsWith_dot s"
| "lodash_startsWith_dot (JArr (x # xs)) = lodash_startsWith_dot x"
| "lodash_startsWith_dot v = False"

definition isSpace :: "char \<Rightarrow> bool" where
  "isSpace c = (c \<in> set [CHR '' '', CHR 0x09, CHR 0x0A, CHR 0x0B, CHR 0x0C, CHR 0x0D])"

definition trim :: "string \<Rightarrow> string" where
  "trim s = rev (dropWhile isSpace (rev (dropWhile isSpace s)))"

text \<open>\<^verbatim>\<open>toLowerCase\<close> on the ASCII letters.\<close>

definition toLowerChar :: "char \<Rightarrow> char" where
  "toLowerChar c =
     (case map_of (zip ''ABCDEFGHIJKLMNOPQRSTUVWXYZ'' ''abcdefghijklmnopqrstuvwxyz'') c of
        None \<Rightarrow> c
      | Some l \<Rightarrow> l)"

definition toLowerCase :: "string \<Rightarrow> string" where
  "toLowerCase s = map toLowerChar s"

definition endsWith :: "string \<Rightarrow> string \<Rightarrow> bool" where
  "endsWith s suffix = (length suffix \<le> length s \<and> drop (length s - length suffix) s = suffix)"

text \<open>\<^verbatim>\<open>s.substring(0, s.lastIndexOf('.'))\<close>; with no dot the index is -1 and the result empty.\<close>

definition beforeLastDot :: "string \<Rightarrow> string" where
  "beforeLastDot s = rev (tl (dropWhile (\<lambda>c. c \<noteq> CHR ''.'') (rev s)))"

definition removeExtension :: "string \<Rightarrow> string" where
  "removeExtension fileName =
     (let lowerFileName = toLowerCase fileName
      in if endsWith lowerFileName ''.yaml'' \<or> endsWith lowerFileName ''.yml''
            \<or> endsWith lowerFileName ''.json''
         then beforeLastDot fileName
         else fileName)"

subsection \<open>The \<^verbatim>\<open>path\<close> module (POSIX)\<close>

fun split_path :: "string \<Rightarrow> string list" where
  "split_path [] = [[]]"
| "split_path (c # cs) =
     (if c = CHR ''/'' then [] # split_path cs
      else (case split_path cs of [] \<Rightarrow> [[c]] | seg # segs \<Rightarrow> (c # seg) # segs))"

text \<open>
  \<^verbatim>\<open>normalizeString\<close>: empty segments and \<^verbatim>\<open>.\<close> are dropped; \<^verbatim>\<open>..\<close> removes the last
  segment kept so far unless there is none or it is \<^verbatim>\<open>..\<close> itself, in which case it is
  kept only when the path is relative.
\<close>

fun normalizeString :: "bool \<Rightarrow> string list \<Rightarrow> string list \<Rightarrow> string list" where
  "normalizeString allowAboveRoot res [] = res"
| "normalizeString allowAboveRoot res (seg # segs) =
     (if seg = [] \<or> seg = ''.'' then normalizeString allowAboveRoot res segs
      else if seg = ''..'' then
        (if res \<noteq> [] \<and> last res \<noteq> ''..'' then normalizeString allowAboveRoot (butlast res) segs
         else if allowAboveRoot then normalizeString allowAboveRoot (res @ [''..'']) segs
         else normalizeString allowAboveRoot res segs)
      else normalizeString allowAboveRoot (res @ [seg]) segs)"

fun join_slash :: "string list \<Rightarrow> string" where
  "join_slash [] = []"
| "join_slash [s] = s"
| "join_slash (s # t # ss) = s @ ''/'' @ join_slash (t # ss)"

definition path_normalize :: "string \<Rightarrow> string" where
  "path_normalize p =
     (if p = [] then ''.''
      else
        let isAbsolute = (hd p = CHR ''/'');
            trailingSeparator = (last p = CHR ''/'');
            q = join_slash (normalizeString (\<not> isAbsolute) [] (split_path p))
        in if q = [] then (if isAbsolute then ''/'' else if trailingSeparator then ''./'' else ''.'')
           else (if isAbsolute then ''/'' else []) @ q @ (if trailingSeparator then ''/'' else []))"

definition path_join :: "string list \<Rightarrow> string" where
  "path_join args =
     (let joined = join_slash (filter (\<lambda>a. a \<noteq> []) args)
      in if joined = [] then ''.'' else path_normalize joined)"

text \<open>
  \<^verbatim>\<open>path.dirname\<close>: trailing slashes are ignored, the result ends before the last
  slash that remains after the first character.
\<close>

definition path_dirname :: "string \<Rightarrow> string" where
  "path_dirname p =
     (case p of
        [] \<Rightarrow> ''.''
      | c # rest \<Rightarrow>
          let stripped = rev (dropWhile (\<lambda>x. x = CHR ''/'') (rev rest));
              pre = rev (dropWhile (\<lambda>x. x \<noteq> CHR ''/'') (rev stripped))
          in if pre = [] then (if c = CHR ''/'' then ''/'' else ''.'')
             else if c = CHR ''/'' \<and> length pre = 1 then ''//''
             else c # butlast pre)"


section \<open>The environment, the world and the controller\<close>

datatype error =
    ParseError string
  | ValidationError string
  | MissingProtocolError
  | StoreError
  | BootstrapInputError
  | TypeError
  | NotLoadedError

text \<open>
  \<open>MissingProtocolError\<close> is \<^verbatim>\<open>Error('GatewayConfig protocol is required.')\<close>,
  \<open>NotLoadedError\<close> the error of \<^verbatim>\<open>ensureLoaded\<close>, \<open>TypeError\<close> what JavaScript throws on
  a property of null or \<^verbatim>\<open>undefined\<close>, on a property write to a scalar in strict mode, and
  what \<^verbatim>\<open>path.join\<close> throws on an argument that is not a string.
\<close>

datatype file_content = Parsed json | Malformed

datatype store_call = FlushDb | Get | Save json | RegisterGatewayVersion

datatype event = LoadEvent | ErrorEvent error | GatewayUpdateEvent "json option"

record answers =
  connectionType :: string
  host :: string
  port :: string
  db :: string
  password :: string

text \<open>
  What the run does not compute itself. \<open>gatewayConfigFile\<close> and \<open>resetBeforeStart\<close>
  are the static fields of the class, \<open>NODE_ENV\<close> and \<open>cwd\<close> come from the process. The
  helpers \<^verbatim>\<open>checkEnvVariable\<close> (\<^verbatim>\<open>./utils/env\<close>), \<^verbatim>\<open>validateServerConfig\<close> and
  \<^verbatim>\<open>validateGatewayConfig\<close> (\<^verbatim>\<open>./config/gateway\<close>) and the two packaged templates are
  imported by the source file and are not part of it: they are parameters. A validated
  server configuration is a \<^verbatim>\<open>ServerConfig\<close> object, given by its properties. \<open>uuid\<close>
  is the random generator, by the number of the call. \<open>prompt\<close> is what the user answers
  to \<^verbatim>\<open>askRedisOptions\<close>.
\<close>

record environment =
  cwd :: string
  NODE_ENV :: "string option"
  gatewayConfigFile :: "string option"
  resetBeforeStart :: bool
  checkEnvVariable :: "json \<Rightarrow> json"
  validateServerConfig :: "json \<Rightarrow> error + fields"
  validateGatewayConfig :: "json \<Rightarrow> error + json"
  serverTemplate :: json
  gatewayTemplate :: json
  uuid :: "nat \<Rightarrow> string"
  prompt :: "error + answers"
  storeOnline :: bool

text \<open>
  The state of a run: the file system as the run reads it (a parsed value per path), the
  writes it has requested with \<^verbatim>\<open>fs.writeFile\<close> (a value written with
  \<^verbatim>\<open>YAML.stringify\<close> and loaded again is taken to give the value back), the store, the
  calls made to it, the number of prompts and of random secrets drawn, and the
  controller's own fields \<open>config\<close> (\<open>None\<close> when it is null or was never set),
  \<open>isLoaded\<close> and the notifications it emitted. \<open>observed\<close> lists what a reader
  running at each \<^verbatim>\<open>await\<close> of the run finds in \<open>config\<close> and \<open>isLoaded\<close>.
\<close>

record state =
  files :: "string \<rightharpoonup> file_content"
  writeRequests :: "(string \<times> file_content) list"
  stored :: "json option"
  storeCalls :: "store_call list"
  prompts :: nat
  uuids :: nat
  config :: "json option"
  isLoaded :: bool
  emitted :: "event list"
  observed :: "(json option \<times> bool) list"

definition suspend :: "state \<Rightarrow> state" where
  "suspend s = s\<lparr>observed := observed s @ [(config s, isLoaded s)]\<rparr>"

definition truthy_opt :: "json option \<Rightarrow> bool" where
  "truthy_opt v = (case v of None \<Rightarrow> False | Some w \<Rightarrow> truthy w)"

text \<open>
  \<^verbatim>\<open>o.k = v\<close> in strict mode: null, \<^verbatim>\<open>undefined\<close> and scalars throw. A sequence would
  take a named property, which this value type does not hold: it stays as it is.
\<close>

fun assign_prop :: "json option \<Rightarrow> string \<Rightarrow> json \<Rightarrow> error + json" where
  "assign_prop (Some (JObj fs)) k v = Inr (JObj (AList.update k v fs))"
| "assign_prop (Some (JArr xs)) k v = Inr (JArr xs)"
| "assign_prop w k v = Inl TypeError"

fun path_join_js :: "json option \<Rightarrow> json option \<Rightarrow> error + json" where
  "path_join_js (Some (JStr a)) (Some (JStr b)) = Inr (JStr (path_join [a, b]))"
| "path_join_js a b = Inl TypeError"

text \<open>
  \<^verbatim>\<open>if (_.startsWith(cfg.p, '.')) { cfg.p = path.join(base, cfg.p); }\<close>
\<close>

definition resolveRelative :: "json option \<Rightarrow> string list \<Rightarrow> json \<Rightarrow> error + json" where
  "resolveRelative base p cfg =
     (case get_path p cfg of
        None \<Rightarrow> Inr cfg
      | Some v \<Rightarrow>
          if lodash_startsWith_dot v then
            (case path_join_js base (Some v) of
               Inl e \<Rightarrow> Inl e
             | Inr j \<Rightarrow> Inr (modify_path p (\<lambda>old. j) cfg))
          else Inr cfg)"

section \<open>The store\<close>

text \<open>
  Modelled from the spec: the gateway service (\<^verbatim>\<open>./service/gateway\<close> and its Redis
  implementation) and \<^verbatim>\<open>flushdb\<close> of the database are bound at run time and are not part
  of the source file. The specification: "Fetch the stored gateway value (absent if never
  saved)", "persist the synthesized value to the store, and register a version marker",
  and a StoreError on "connectivity/read/write failure against the persistence backend".
\<close>

definition gatewayService_get :: "environment \<Rightarrow> state \<Rightarrow> (error + json option) \<times> state" where
  "gatewayService_get env s =
     (let s' = s\<lparr>storeCalls := storeCalls s @ [Get]\<rparr>
      in if storeOnline env then (Inr (stored s), s') else (Inl StoreError, s'))"

definition gatewayService_save :: "environment \<Rightarrow> json \<Rightarrow> state \<Rightarrow> (error + unit) \<times> state" where
  "gatewayService_save env v s =
     (let s' = s\<lparr>storeCalls := storeCalls s @ [Save v]\<rparr>
      in if storeOnline env then (Inr (), s'\<lparr>stored := Some v\<rparr>) else (Inl StoreError, s'))"

definition gatewayService_registerGatewayVersion ::
  "environment \<Rightarrow> state \<Rightarrow> (error + unit) \<times> state" where
  "gatewayService_registerGatewayVersion env s =
     (let s' = s\<lparr>storeCalls := storeCalls s @ [RegisterGatewayVersion]\<rparr>
      in if storeOnline env then (Inr (), s') else (Inl StoreError, s'))"

definition flushdb :: "environment \<Rightarrow> state \<Rightarrow> (error + unit) \<times> state" where
  "flushdb env s =
     (let s' = s\<lparr>storeCalls := storeCalls s @ [FlushDb]\<rparr>
      in if storeOnline env then (Inr (), s'\<lparr>stored := None\<rparr>) else (Inl StoreError, s'))"


section \<open>The Format Loader, the Environment Overlay and the Bootstrap Provider\<close>

definition readParsed :: "state \<Rightarrow> string \<Rightarrow> error + json" where
  "readParsed s name =
     (case files s name of
        None \<Rightarrow> Inr JNull
      | Some Malformed \<Rightarrow> Inl (ParseError name)
      | Some (Parsed v) \<Rightarrow> Inr v)"

definition loadConfigObject :: "state \<Rightarrow> string \<Rightarrow> error + json" where
  "loadConfigObject s fileName =
     (if files s (fileName @ ''.yml'') \<noteq> None then readParsed s (fileName @ ''.yml'')
      else if files s (fileName @ ''.yaml'') \<noteq> None then readParsed s (fileName @ ''.yaml'')
      else if files s (fileName @ ''.json'') \<noteq> None then readParsed s (fileName @ ''.json'')
      else Inr JNull)"

text \<open>
  \<^verbatim>\<open>parseInt(s, 10)\<close>: leading white space, a sign, then the digits; \<^verbatim>\<open>NaN\<close> when there
  is no digit.
\<close>

definition digit_value :: "char \<Rightarrow> nat" where
  "digit_value c = length (takeWhile (\<lambda>d. d \<noteq> c) ''0123456789'')"

definition parseInt :: "string \<Rightarrow> json" where
  "parseInt s =
     (let t = dropWhile isSpace s;
          negative = (t \<noteq> [] \<and> hd t = CHR ''-'');
          u = (if t \<noteq> [] \<and> (hd t = CHR ''-'' \<or> hd t = CHR ''+'') then tl t else t);
          ds = takeWhile (\<lambda>c. c \<in> set ''0123456789'') u;
          n = int (foldl (\<lambda>a c. 10 * a + digit_value c) 0 ds)
      in if ds = [] then JNaN else JNum (if negative then - n else n))"

definition createRedisConfiguration :: "json \<Rightarrow> answers \<Rightarrow> error + json" where
  "createRedisConfiguration cfg a =
     (let endpoint = JObj [(''host'', JStr (host a)), (''port'', parseInt (port a))];
          topology = (if connectionType a = ''standalone''
                      then [(''standalone'', endpoint)]
                      else [(''cluster'', JArr [endpoint])]);
          options = (if db a \<noteq> [] \<or> password a \<noteq> []
                     then [(''options'',
                            JObj ((if db a \<noteq> [] then [(''db'', parseInt (db a))] else []) @
                                  (if password a \<noteq> [] then [(''password'', JStr (password a))]
                                   else [])))]
                     else [])
      in case assign_prop (get_prop cfg ''database'') ''redis'' (JObj (topology @ options)) of
           Inl e \<Rightarrow> Inl e
         | Inr database \<Rightarrow> Inr (set_prop ''database'' database cfg))"

text \<open>
  \<^verbatim>\<open>fs\<close> is \<^verbatim>\<open>fs-extra-promise\<close>, whose \<^verbatim>\<open>writeFile\<close> is the callback-style function
  (the promise variant is \<^verbatim>\<open>writeFileAsync\<close>): the call in \<^verbatim>\<open>await fs.writeFile(...)\<close>
  requests the write and returns no promise, so the run goes on after the suspension of
  the \<^verbatim>\<open>await\<close> without waiting for the write and without seeing whether it fails.
  The request is recorded; the file system the run reads is not changed by it.
\<close>

definition loadDefaultServerConfig :: "environment \<Rightarrow> state \<Rightarrow> (error + json) \<times> state" where
  "loadDefaultServerConfig env s =
     (let filePath = path_join [cwd env, ''tree-gateway.yaml''];
          s1 = suspend (s\<lparr>prompts := Suc (prompts s)\<rparr>)
      in case prompt env of
           Inl e \<Rightarrow> (Inl e, s1)
         | Inr a \<Rightarrow>
             (case createRedisConfiguration (serverTemplate env) a of
                Inl e \<Rightarrow> (Inl e, s1)
              | Inr cfg \<Rightarrow>
                  (Inr cfg,
                   suspend (s1\<lparr>writeRequests := writeRequests s1 @ [(filePath, Parsed cfg)]\<rparr>))))"

definition loadServerConfig :: "environment \<Rightarrow> state \<Rightarrow> string \<Rightarrow> (error + json) \<times> state" where
  "loadServerConfig env s configFileName =
     (case loadConfigObject s configFileName of
        Inl e \<Rightarrow> (Inl e, s)
      | Inr base \<Rightarrow>
          (case (case NODE_ENV env of
                   None \<Rightarrow> Inr base
                 | Some name \<Rightarrow>
                     if name = [] then Inr base
                     else (case loadConfigObject s (configFileName @ ''-'' @ name) of
                             Inl e \<Rightarrow> Inl e
                           | Inr envConfig \<Rightarrow>
                               Inr (if truthy envConfig then defaultsDeep envConfig (Some base)
                                    else base))) of
             Inl e \<Rightarrow> (Inl e, s)
           | Inr cfg \<Rightarrow>
               if \<not> truthy cfg
               then (case loadDefaultServerConfig env s of (r, s1) \<Rightarrow> (r, suspend s1))
               else (Inr cfg, s)))"

section \<open>The Path Defaulter\<close>

text \<open>Lines 132 to 146 of \<^verbatim>\<open>loadGatewayConfig\<close>, on the validated server configuration.\<close>

definition pathDefaulter :: "string \<Rightarrow> fields \<Rightarrow> error + json" where
  "pathDefaulter configFileName serverConfig =
     (let dir = JStr (path_dirname configFileName);
          sc1 = defaults1 (JObj serverConfig) ''rootPath'' dir
      in case resolveRelative (Some dir) [''rootPath''] sc1 of
           Inl e \<Rightarrow> Inl e
         | Inr sc2 \<Rightarrow>
             (case path_join_js (get_prop sc2 ''rootPath'') (Some (JStr ''middleware'')) of
                Inl e \<Rightarrow> Inl e
              | Inr m \<Rightarrow>
                  (let sc3 = defaults1 sc2 ''middlewarePath'' m
                   in resolveRelative (get_prop sc3 ''rootPath'') [''middlewarePath''] sc3)))"

section \<open>The Store Overlay\<close>

definition loadDefaultGatewayConfig :: "environment \<Rightarrow> state \<Rightarrow> (error + json) \<times> state" where
  "loadDefaultGatewayConfig env s =
     (let gateway = gatewayTemplate env
      in case get_prop gateway ''admin'' of
           None \<Rightarrow> (Inl TypeError, s)
         | Some admin \<Rightarrow>
             (case get_prop admin ''userService'' of
                None \<Rightarrow> (Inl TypeError, s)
              | Some userService \<Rightarrow>
                  (case assign_prop (Some userService) ''jwtSecret'' (JStr (uuid env (uuids s))) of
                     Inl e \<Rightarrow> (Inl e, s\<lparr>uuids := Suc (uuids s)\<rparr>)
                   | Inr us \<Rightarrow>
                       (Inr (modify_path [''admin'', ''userService''] (\<lambda>old. us) gateway),
                        s\<lparr>uuids := Suc (uuids s)\<rparr>))))"

definition getConfigFromDB :: "environment \<Rightarrow> state \<Rightarrow> (error + unit) \<times> state" where
  "getConfigFromDB env s =
     (case gatewayService_get env s of
        (Inl e, s1) \<Rightarrow> (Inl e, suspend s1)
      | (Inr gatewayConfig, s1) \<Rightarrow>
          (let s2 = suspend s1
           in case config s2 of
                None \<Rightarrow> (Inl TypeError, s2)
              | Some cfg \<Rightarrow>
                  (case (if truthy_opt gatewayConfig then gatewayConfig else None) of
                     Some storedGateway \<Rightarrow>
                       (let merged = defaultsDeep storedGateway (get_prop cfg ''gateway'');
                            s3 = suspend (s2\<lparr>config := Some (set_prop ''gateway'' merged cfg)\<rparr>)
                        in case validateGatewayConfig env merged of
                             Inl e \<Rightarrow> (Inl e, s3)
                           | Inr valid \<Rightarrow>
                               if \<not> truthy_opt (get_prop merged ''protocol'')
                               then (Inl MissingProtocolError, s3)
                               else (Inr (), s3))
                   | None \<Rightarrow>
                       if \<not> truthy_opt (get_prop cfg ''gateway'') then
                         (case loadDefaultGatewayConfig env s2 of
                            (Inl e, s3) \<Rightarrow> (Inl e, s3)
                          | (Inr gateway, s3) \<Rightarrow>
                              (case gatewayService_save env gateway
                                      (s3\<lparr>config := Some (set_prop ''gateway'' gateway cfg)\<rparr>) of
                                 (Inl e, s4) \<Rightarrow> (Inl e, suspend s4)
                               | (Inr u, s4) \<Rightarrow>
                                   (case gatewayService_registerGatewayVersion env (suspend s4) of
                                      (r, s5) \<Rightarrow> (r, suspend s5))))
                       else (Inr (), s2))))"

definition loadDatabaseConfig :: "environment \<Rightarrow> state \<Rightarrow> (error + unit) \<times> state" where
  "loadDatabaseConfig env s =
     (let s1 = suspend s
      in if resetBeforeStart env then
           (case flushdb env s1 of
              (Inl e, s2) \<Rightarrow> (Inl e, suspend s2)
            | (Inr u, s2) \<Rightarrow> getConfigFromDB env (suspend s2))
         else getConfigFromDB env s1)"

section \<open>The pipeline\<close>

text \<open>
  \<^verbatim>\<open>loadContainerConfigurations\<close>, called between the Array Normalizer and the Store
  Overlay, binds the Redis implementations of the services and changes nothing of the
  configuration: it has no counterpart here.
\<close>

text \<open>Lines 157 to 168: the TLS private key and certificate, after the Store Overlay.\<close>

definition resolveTlsPaths :: "state \<Rightarrow> (error + unit) \<times> state" where
  "resolveTlsPaths s =
     (case config s of
        None \<Rightarrow> (Inl TypeError, s)
      | Some cfg \<Rightarrow>
          if truthy_opt (get_prop cfg ''gateway'')
             \<and> truthy_opt (get_path [''gateway'', ''protocol''] cfg)
             \<and> truthy_opt (get_path [''gateway'', ''protocol'', ''https''] cfg)
          then
            (case resolveRelative (get_prop cfg ''rootPath'')
                    [''gateway'', ''protocol'', ''https'', ''privateKey''] cfg of
               Inl e \<Rightarrow> (Inl e, s)
             | Inr cfg1 \<Rightarrow>
                 (case resolveRelative (get_prop cfg1 ''rootPath'')
                         [''gateway'', ''protocol'', ''https'', ''certificate''] cfg1 of
                    Inl e \<Rightarrow> (Inl e, s\<lparr>config := Some cfg1\<rparr>)
                  | Inr cfg2 \<Rightarrow> (Inr (), s\<lparr>config := Some cfg2\<rparr>)))
          else (Inr (), s))"

definition loadGatewayConfig :: "environment \<Rightarrow> state \<Rightarrow> string \<Rightarrow> (error + unit) \<times> state" where
  "loadGatewayConfig env s serverConfigFile =
     (let stripped = removeExtension (trim serverConfigFile);
          configFileName = (if startsWith_dot stripped then path_join [cwd env, stripped]
                            else stripped)
      in case loadServerConfig env s configFileName of
           (Inl e, s1) \<Rightarrow> (Inl e, suspend s1)
         | (Inr cfg, s1) \<Rightarrow>
             (let s2 = suspend (suspend s1)
              in case validateServerConfig env cfg of
                   Inl e \<Rightarrow> (Inl e, s2)
                 | Inr serverConfig \<Rightarrow>
                     (case pathDefaulter configFileName serverConfig of
                        Inl e \<Rightarrow> (Inl e, s2)
                      | Inr sc \<Rightarrow>
                          (case loadDatabaseConfig env
                                  (s2\<lparr>config :=
                                        Some (castArrays (deepMapValues (checkEnvVariable env) sc))\<rparr>) of
                             (Inl e, s3) \<Rightarrow> (Inl e, suspend s3)
                           | (Inr u, s3) \<Rightarrow> resolveTlsPaths (suspend s3)))))"

section \<open>The Lifecycle Controller\<close>

definition configFile :: "environment \<Rightarrow> string" where
  "configFile env =
     (case gatewayConfigFile env of
        None \<Rightarrow> path_join [cwd env, ''tree-gateway.json'']
      | Some f \<Rightarrow> if f = [] then path_join [cwd env, ''tree-gateway.json''] else f)"

definition ensureLoaded :: "state \<Rightarrow> error + unit" where
  "ensureLoaded s = (if \<not> isLoaded s then Inl NotLoadedError else Inr ())"

text \<open>The getters. A property of a configuration that is null or unset throws.\<close>

definition gateway :: "state \<Rightarrow> error + json option" where
  "gateway s =
     (case ensureLoaded s of
        Inl e \<Rightarrow> Inl e
      | Inr u \<Rightarrow> (case config s of None \<Rightarrow> Inl TypeError | Some cfg \<Rightarrow> Inr (get_prop cfg ''gateway'')))"

definition rootPath :: "state \<Rightarrow> error + json option" where
  "rootPath s = (case config s of None \<Rightarrow> Inl TypeError | Some cfg \<Rightarrow> Inr (get_prop cfg ''rootPath''))"

definition middlewarePath :: "state \<Rightarrow> error + json option" where
  "middlewarePath s =
     (case config s of None \<Rightarrow> Inl TypeError | Some cfg \<Rightarrow> Inr (get_prop cfg ''middlewarePath''))"

definition database :: "state \<Rightarrow> error + json option" where
  "database s = (case config s of None \<Rightarrow> Inl TypeError | Some cfg \<Rightarrow> Inr (get_prop cfg ''database''))"

definition loaded :: "state \<Rightarrow> bool" where
  "loaded s = isLoaded s"

text \<open>
  \<^verbatim>\<open>emit\<close> records the notification; what the listeners do with it is not part of the
  controller. \<^verbatim>\<open>load\<close> has no outcome of its own: whatever the pipeline throws is
  caught.
\<close>

definition emit :: "event \<Rightarrow> state \<Rightarrow> state" where
  "emit ev s = s\<lparr>emitted := emitted s @ [ev]\<rparr>"

definition load :: "environment \<Rightarrow> state \<Rightarrow> state" where
  "load env s =
     (if \<not> isLoaded s then
        (case loadGatewayConfig env s (configFile env) of
           (Inr u, s1) \<Rightarrow> emit LoadEvent ((suspend s1)\<lparr>isLoaded := True\<rparr>)
         | (Inl err, s1) \<Rightarrow> emit (ErrorEvent err) ((suspend s1)\<lparr>isLoaded := False\<rparr>))
      else s)"

definition reload :: "environment \<Rightarrow> state \<Rightarrow> (error + unit) \<times> state" where
  "reload env s =
     (case loadGatewayConfig env (s\<lparr>config := None\<rparr>) (configFile env) of
        (Inl e, s1) \<Rightarrow> (Inl e, suspend s1)
      | (Inr u, s1) \<Rightarrow>
          (let s2 = suspend s1
           in case gateway s2 of
                Inl e \<Rightarrow> (Inl e, s2)
              | Inr g \<Rightarrow> (Inr (), emit (GatewayUpdateEvent g) s2)))"

text \<open>The controller as the constructor leaves it, before its first \<^verbatim>\<open>load\<close> has run.\<close>

definition initial :: "(string \<rightharpoonup> file_content) \<Rightarrow> json option \<Rightarrow> state" where
  "initial fs st =
     \<lparr>files = fs, writeRequests = [], stored = st, storeCalls = [], prompts = 0, uuids = 0,
      config = None, isLoaded = False, emitted = [], observed = []\<rparr>"


section \<open>Notions used to state the properties\<close>

text \<open>Two paths diverge when they differ at a segment that both have.\<close>

fun diverge :: "string list \<Rightarrow> string list \<Rightarrow> bool" where
  "diverge (a # p) (b # q) = (if a = b then diverge p q else True)"
| "diverge p q = False"

definition run_stages :: "(string list \<times> (json \<Rightarrow> json)) list \<Rightarrow> json \<Rightarrow> json" where
  "run_stages st v = fold (\<lambda>pf. modify_path (fst pf) (snd pf)) st v"

fun separate :: "(string list \<times> (json \<Rightarrow> json)) list \<Rightarrow> bool" where
  "separate [] = True"
| "separate (pf # st) = ((\<forall>qg \<in> set st. diverge (fst pf) (fst qg)) \<and> separate st)"

definition castArrays_stages :: "(string list \<times> (json \<Rightarrow> json)) list" where
  "castArrays_stages =
     [([''database'', ''redis'', ''cluster''], lodash_castArray),
      ([''database'', ''redis'', ''sentinel'', ''nodes''], lodash_castArray),
      ([''gateway'', ''filter''], lodash_castArray),
      ([''gateway'', ''admin'', ''filter''], lodash_castArray),
      ([''gateway'', ''serviceDiscovery'', ''provider''], lodash_castArray),
      ([''gateway'', ''logger'', ''console'', ''stderrLevels''], lodash_castArray),
      ([''gateway'', ''accessLogger'', ''console'', ''stderrLevels''], lodash_castArray),
      ([''gateway'', ''config'', ''cache''], forEach_key castCacheEntry),
      ([''gateway'', ''config'', ''cors''], forEach_key castCorsEntry)]"

text \<open>The target paths of the Array Normalizer: the fixed ones and those under a named key.\<close>

definition fixed_paths :: "string list list" where
  "fixed_paths =
     [[''database'', ''redis'', ''cluster''],
      [''database'', ''redis'', ''sentinel'', ''nodes''],
      [''gateway'', ''filter''],
      [''gateway'', ''admin'', ''filter''],
      [''gateway'', ''serviceDiscovery'', ''provider''],
      [''gateway'', ''logger'', ''console'', ''stderrLevels''],
      [''gateway'', ''accessLogger'', ''console'', ''stderrLevels'']]"

definition cache_path :: "string \<Rightarrow> string list" where
  "cache_path key = [''gateway'', ''config'', ''cache'', key, ''server'', ''preserveHeaders'']"

definition cors_paths :: "string \<Rightarrow> string list list" where
  "cors_paths key =
     [[''gateway'', ''config'', ''cors'', key, ''allowedHeaders''],
      [''gateway'', ''config'', ''cors'', key, ''exposedHeaders''],
      [''gateway'', ''config'', ''cors'', key, ''methods'']]"

text \<open>
  What a run leaves alone: the notifications, the loaded flag, and what was observed
  before it. A quiet run also leaves the configuration alone, so that all it adds to the
  observations is the state it started from.
\<close>

definition frame :: "state \<Rightarrow> state \<Rightarrow> bool" where
  "frame s s' = (emitted s' = emitted s \<and> isLoaded s' = isLoaded s
                 \<and> (\<exists>more. observed s' = observed s @ more))"

definition quiet :: "state \<Rightarrow> state \<Rightarrow> bool" where
  "quiet s s' = (emitted s' = emitted s \<and> isLoaded s' = isLoaded s \<and> config s' = config s
                 \<and> (\<exists>n. observed s' = observed s @ replicate n (config s, isLoaded s)))"

text \<open>
  A sample environment: the process runs in \<^verbatim>\<open>/srv\<close> with no \<^verbatim>\<open>NODE_ENV\<close> and the
  default configuration file name, no variable is interpolated, every object is a valid
  server configuration and every value a valid gateway configuration, the store is
  reachable, and the user answers the prompt with a standalone Redis.
\<close>

definition example_env :: environment where
  "example_env =
     \<lparr>cwd = ''/srv'', NODE_ENV = None, gatewayConfigFile = None, resetBeforeStart = False,
      checkEnvVariable = (\<lambda>v. v),
      validateServerConfig =
        (\<lambda>v. case v of JObj fs \<Rightarrow> Inr fs | _ \<Rightarrow> Inl (ValidationError ''server'')),
      validateGatewayConfig = (\<lambda>v. Inr v),
      serverTemplate = JObj [(''database'', JObj [])],
      gatewayTemplate =
        JObj [(''protocol'', JObj [(''http'', JObj [(''listenPort'', JNum 8000)])]),
              (''admin'', JObj [(''userService'', JObj [])])],
      uuid = (\<lambda>n. ''secret-'' @ digit_string n),
      prompt = Inr \<lparr>connectionType = ''standalone'', host = ''localhost'', port = ''6379'',
                    db = [], password = []\<rparr>,
      storeOnline = True\<rparr>"

text \<open>A file system whose only configuration file cannot be parsed.\<close>

definition broken_files :: "string \<rightharpoonup> file_content" where
  "broken_files = [''/srv/tree-gateway.yml'' \<mapsto> Malformed]"

text \<open>
  A deployment named \<^verbatim>\<open>production\<close>: the base file lists two filters, the overlay one.
\<close>

definition overlay_env :: environment where
  "overlay_env = example_env\<lparr>NODE_ENV := Some ''production''\<rparr>"

definition overlay_files :: "string \<rightharpoonup> file_content" where
  "overlay_files =
     [''/srv/tree-gateway.yml'' \<mapsto>
        Parsed (JObj [(''database'', JObj []),
                      (''gateway'', JObj [(''filter'', JArr [JStr ''x'', JStr ''y''])])]),
      ''/srv/tree-gateway-production.yml'' \<mapsto>
        Parsed (JObj [(''gateway'', JObj [(''filter'', JArr [JStr ''a''])])])]"

text \<open>
  Controllers in the middle of a run, with the locally resolved configuration in place
  and a gateway value in the store: one whose stored value lists one filter while the
  local one lists two, one whose stored and local values disagree on the port, one whose
  stored and local values both lack a protocol.
\<close>

definition merge_state :: state where
  "merge_state =
     (initial Map.empty
        (Some (JObj [(''protocol'', JObj [(''http'', JObj [(''listenPort'', JNum 8000)])]),
                     (''filter'', JArr [JStr ''a''])])))
     \<lparr>config := Some (JObj [(''rootPath'', JStr ''/srv''),
                            (''gateway'', JObj [(''filter'', JArr [JStr ''x'', JStr ''y''])])])\<rparr>"

definition conflict_state :: state where
  "conflict_state =
     (initial Map.empty
        (Some (JObj [(''protocol'', JObj [(''http'', JObj [(''listenPort'', JNum 8000)])])])))
     \<lparr>config := Some (JObj [(''gateway'',
                             JObj [(''protocol'', JObj [(''http'', JObj [(''listenPort'', JNum 9999)])]),
                                   (''filter'', JArr [JStr ''x''])])])\<rparr>"

definition protocolless_state :: state where
  "protocolless_state =
     (initial Map.empty (Some (JObj [(''admin'', JObj [])])))
     \<lparr>config := Some (JObj [(''gateway'', JObj [(''filter'', JArr [JStr ''x''])])])\<rparr>"

text \<open>Controllers at the Store Overlay with an empty store: without and with a local gateway.\<close>

definition unseeded_state :: state where
  "unseeded_state = (initial Map.empty None)\<lparr>config := Some (JObj [(''rootPath'', JStr ''/srv'')])\<rparr>"

definition local_gateway_state :: state where
  "local_gateway_state =
     (initial Map.empty None)
     \<lparr>config := Some (JObj [(''gateway'', JObj [(''protocol'', JObj [(''http'', JObj [])])])])\<rparr>"

text \<open>
  No configuration file in any of the three formats at a base path; no environment
  overlay file for it.
\<close>

definition absent_at :: "state \<Rightarrow> string \<Rightarrow> bool" where
  "absent_at s base =
     (files s (base @ ''.yml'') = None \<and> files s (base @ ''.yaml'') = None
      \<and> files s (base @ ''.json'') = None)"

definition no_overlay :: "environment \<Rightarrow> state \<Rightarrow> string \<Rightarrow> bool" where
  "no_overlay env s base =
     (case NODE_ENV env of
        None \<Rightarrow> True
      | Some name \<Rightarrow> name = [] \<or> absent_at s (base @ ''-'' @ name))"

text \<open>
  The directory \<^verbatim>\<open>/srv\<close> once it holds the file that the Bootstrap Provider generates
  in the sample environment.
\<close>

definition generated_files :: "string \<rightharpoonup> file_content" where
  "generated_files =
     [''/srv/tree-gateway.yaml'' \<mapsto>
        Parsed (JObj [(''database'',
                       JObj [(''redis'',
                              JObj [(''standalone'',
                                     JObj [(''host'', JStr ''localhost''),
                                           (''port'', JNum 6379)])])])])]"

text \<open>The sample environment with the configured base path \<^verbatim>\<open>./app-config\<close>.\<close>

definition custom_env :: environment where
  "custom_env = example_env\<lparr>gatewayConfigFile := Some ''./app-config''\<rparr>"

text \<open>The base path that \<^verbatim>\<open>loadGatewayConfig\<close> computes from the configured file name.\<close>

definition configFileName_of :: "environment \<Rightarrow> string \<Rightarrow> string" where
  "configFileName_of env serverConfigFile =
     (let stripped = removeExtension (trim serverConfigFile)
      in if startsWith_dot stripped then path_join [cwd env, stripped] else stripped)"

text \<open>
  The order of the stages as the specification gives it, with the stages of the source:
  Format Loader and Environment Overlay, then the Variable Interpolator, then the Path
  Defaulter with the TLS paths, then the Array Normalizer, then the Store Overlay.
\<close>

definition specified_order :: "environment \<Rightarrow> state \<Rightarrow> string \<Rightarrow> (error + unit) \<times> state" where
  "specified_order env s serverConfigFile =
     (let configFileName = configFileName_of env serverConfigFile
      in case loadServerConfig env s configFileName of
           (Inl e, s1) \<Rightarrow> (Inl e, suspend s1)
         | (Inr cfg, s1) \<Rightarrow>
             (let s2 = suspend (suspend s1)
              in case validateServerConfig env cfg of
                   Inl e \<Rightarrow> (Inl e, s2)
                 | Inr serverConfig \<Rightarrow>
                     (case deepMapValues (checkEnvVariable env) (JObj serverConfig) of
                        JObj interpolated \<Rightarrow>
                          (case pathDefaulter configFileName interpolated of
                             Inl e \<Rightarrow> (Inl e, s2)
                           | Inr sc \<Rightarrow>
                               (case resolveTlsPaths (s2\<lparr>config := Some sc\<rparr>) of
                                  (Inl e, s3) \<Rightarrow> (Inl e, s3)
                                | (Inr u, s3) \<Rightarrow>
                                    (case loadDatabaseConfig env
                                            (s3\<lparr>config := map_option castArrays (config s3)\<rparr>) of
                                       (r, s4) \<Rightarrow> (r, suspend s4))))
                      | other \<Rightarrow> (Inl TypeError, s2))))"

text \<open>
  A new controller whose configuration file has no gateway, over a store whose gateway
  names its TLS files relative to the root path.
\<close>

definition tls_state :: state where
  "tls_state =
     initial [''/srv/tree-gateway.yml'' \<mapsto> Parsed (JObj [(''database'', JObj [])])]
       (Some (JObj [(''protocol'',
                     JObj [(''https'',
                            JObj [(''privateKey'', JStr ''./key.pem''),
                                  (''certificate'', JStr ''./cert.pem'')])])]))"

text \<open>
  That controller after its first \<^verbatim>\<open>load\<close>, over a store whose gateway has since been
  replaced by one that listens on port 8000.
\<close>

definition changed_state :: state where
  "changed_state =
     (load example_env tls_state)
       \<lparr>stored := Some (JObj [(''protocol'', JObj [(''http'', JObj [(''listenPort'', JNum 8000)])])])\<rparr>"

text \<open>The controller as a reader finds it at an observation.\<close>

definition reader :: "json option \<times> bool \<Rightarrow> state" where
  "reader ob = (initial Map.empty None)\<lparr>config := fst ob, isLoaded := snd ob\<rparr>"

section \<open>Properties\<close>

subsection \<open>Paths\<close>

lemma map_of_map_entry:
  "map_of (map_entry k f fs) k' = (if k' = k then map_option f (map_of fs k) else map_of fs k')"
  by (induction fs) auto

lemma map_entry_absent: "map_of fs k = None \<Longrightarrow> map_entry k f fs = fs"
  by (induction fs) (auto split: if_splits)

lemma map_entry_commute:
  "k \<noteq> k' \<Longrightarrow> map_entry k f (map_entry k' g fs) = map_entry k' g (map_entry k f fs)"
  by (induction fs) auto

lemma map_entry_twice: "map_entry k f (map_entry k g fs) = map_entry k (\<lambda>v. f (g v)) fs"
  by (induction fs) auto

lemma map_entry_cong_val:
  "(\<And>v. map_of fs k = Some v \<Longrightarrow> f v = g v) \<Longrightarrow> map_entry k f fs = map_entry k g fs"
  by (induction fs) auto

lemma modify_path_absent: "get_path p v = None \<Longrightarrow> modify_path p f v = v"
proof (induction p arbitrary: v)
  case Nil
  then show ?case by simp
next
  case (Cons k ks)
  show ?case
  proof (cases v)
    case (JObj fs)
    show ?thesis
    proof (cases "map_of fs k")
      case None
      then show ?thesis using JObj by (simp add: map_entry_absent)
    next
      case (Some u)
      with Cons.prems JObj have "get_path ks u = None" by simp
      then have "modify_path ks f u = u" by (rule Cons.IH)
      then have "map_entry k (modify_path ks f) fs = map_entry k (\<lambda>x. x) fs"
        using Some by (intro map_entry_cong_val) simp
      also have "\<dots> = fs" by (induction fs) auto
      finally show ?thesis using JObj by simp
    qed
  qed simp_all
qed

lemma castArray_eq: "castArray obj p = modify_path p lodash_castArray obj"
  by (simp add: castArray_def has_path_def modify_path_absent)

lemma get_modify_same: "get_path p (modify_path p f v) = map_option f (get_path p v)"
  by (induction p arbitrary: v) (auto simp: map_of_map_entry split: json.splits option.splits)

lemma get_modify_diverge: "diverge p q \<Longrightarrow> get_path p (modify_path q f v) = get_path p v"
proof (induction p q arbitrary: v rule: diverge.induct)
  case (1 a p b q)
  then show ?case
    by (cases v) (auto simp: map_of_map_entry split: option.splits if_splits)
qed simp_all

lemma get_modify_below:
  "get_path (q @ r) (modify_path q f v) =
     (case get_path q v of None \<Rightarrow> None | Some u \<Rightarrow> get_path r (f u))"
  by (induction q arbitrary: v) (auto simp: map_of_map_entry split: json.splits option.splits)

lemma modify_commute:
  "diverge p q \<Longrightarrow> modify_path p f (modify_path q g v) = modify_path q g (modify_path p f v)"
proof (induction p q arbitrary: v rule: diverge.induct)
  case (1 a p b q)
  show ?case
  proof (cases v)
    case (JObj fs)
    show ?thesis
    proof (cases "a = b")
      case True
      with 1 have IH: "\<And>u. modify_path p f (modify_path q g u) = modify_path q g (modify_path p f u)"
        by simp
      show ?thesis using JObj True by (simp add: map_entry_twice IH)
    next
      case False
      then show ?thesis using JObj by (simp add: map_entry_commute)
    qed
  qed simp_all
qed simp_all

lemma modify_idem:
  "(\<And>x. f (f x) = f x) \<Longrightarrow> modify_path p f (modify_path p f v) = modify_path p f v"
proof (induction p arbitrary: v)
  case Nil then show ?case by simp
next
  case (Cons k ks)
  then show ?case by (cases v) (simp_all add: map_entry_twice)
qed


lemma modify_fix_pres:
  "diverge p q \<Longrightarrow> modify_path p f v = v \<Longrightarrow>
     modify_path p f (modify_path q g v) = modify_path q g v"
  using modify_commute [of p q f g v] by simp

lemma lodash_castArray_idem: "lodash_castArray (lodash_castArray v) = lodash_castArray v"
  by (cases v) simp_all

lemma forEach_key_idem: "(\<And>x. g (g x) = g x) \<Longrightarrow> forEach_key g (forEach_key g v) = forEach_key g v"
  by (cases v) simp_all

lemma castCacheEntry_idem: "castCacheEntry (castCacheEntry e) = castCacheEntry e"
  by (simp add: castCacheEntry_def castArray_eq modify_idem lodash_castArray_idem
      del: modify_path.simps)

lemma castCorsEntry_idem: "castCorsEntry (castCorsEntry e) = castCorsEntry e"
  by (simp add: castCorsEntry_def castArray_eq modify_idem modify_fix_pres lodash_castArray_idem
      del: modify_path.simps)


lemma run_stages_Nil: "run_stages [] v = v"
  by (simp add: run_stages_def)

lemma run_stages_Cons: "run_stages (pf # st) v = run_stages st (modify_path (fst pf) (snd pf) v)"
  by (simp add: run_stages_def)

lemma fixed_after:
  "\<forall>qg \<in> set st. diverge p (fst qg) \<Longrightarrow> modify_path p f v = v \<Longrightarrow>
     modify_path p f (run_stages st v) = run_stages st v"
proof (induction st arbitrary: v)
  case Nil
  then show ?case by (simp add: run_stages_Nil)
next
  case (Cons qg st)
  have "modify_path p f (modify_path (fst qg) (snd qg) v) = modify_path (fst qg) (snd qg) v"
    using Cons.prems by (intro modify_fix_pres) simp_all
  with Cons show ?case by (simp add: run_stages_Cons del: modify_path.simps)
qed

lemma all_fixed:
  "separate st \<Longrightarrow> \<forall>pf \<in> set st. \<forall>x. snd pf (snd pf x) = snd pf x \<Longrightarrow> pf \<in> set st \<Longrightarrow>
     modify_path (fst pf) (snd pf) (run_stages st v) = run_stages st v"
proof (induction st arbitrary: v)
  case Nil
  then show ?case by simp
next
  case (Cons qg st)
  show ?case
  proof (cases "pf = qg")
    case True
    have "modify_path (fst qg) (snd qg) (modify_path (fst qg) (snd qg) v)
            = modify_path (fst qg) (snd qg) v"
      using Cons.prems(2) by (intro modify_idem) simp
    then have "modify_path (fst qg) (snd qg) (run_stages st (modify_path (fst qg) (snd qg) v))
            = run_stages st (modify_path (fst qg) (snd qg) v)"
      using Cons.prems(1) by (intro fixed_after) simp_all
    then show ?thesis using True by (simp add: run_stages_Cons del: modify_path.simps)
  next
    case False
    with Cons.prems have "pf \<in> set st" "separate st"
      "\<forall>pf \<in> set st. \<forall>x. snd pf (snd pf x) = snd pf x" by simp_all
    then show ?thesis using Cons.IH by (simp add: run_stages_Cons del: modify_path.simps)
  qed
qed

lemma run_fixed:
  "\<forall>pf \<in> set st. modify_path (fst pf) (snd pf) w = w \<Longrightarrow> run_stages st w = w"
  by (induction st) (simp_all add: run_stages_Nil run_stages_Cons del: modify_path.simps)

lemma run_stages_idem:
  "separate st \<Longrightarrow> \<forall>pf \<in> set st. \<forall>x. snd pf (snd pf x) = snd pf x \<Longrightarrow>
     run_stages st (run_stages st v) = run_stages st v"
proof (rule run_fixed, rule ballI)
  fix pf
  assume "separate st" "\<forall>pf \<in> set st. \<forall>x. snd pf (snd pf x) = snd pf x" "pf \<in> set st"
  then show "modify_path (fst pf) (snd pf) (run_stages st v) = run_stages st v"
    by (rule all_fixed)
qed

lemma guarded_modify: "(if has_path v p then modify_path p f v else v) = modify_path p f v"
  by (simp add: has_path_def modify_path_absent del: modify_path.simps get_path.simps)

lemma castArrays_run: "castArrays server = run_stages castArrays_stages server"
  unfolding castArrays_def castArray_eq guarded_modify Let_def castArrays_stages_def run_stages_def
  by (simp only: fold_simps comp_def fst_conv snd_conv)

lemma separate_castArrays_stages: "separate castArrays_stages"
  by (simp add: castArrays_stages_def)

lemma idem_castArrays_stages: "\<forall>pf \<in> set castArrays_stages. \<forall>x. snd pf (snd pf x) = snd pf x"
  by (simp add: castArrays_stages_def lodash_castArray_idem forEach_key_idem
      castCacheEntry_idem castCorsEntry_idem)


lemma get_path_append:
  "get_path (p @ q) v = (case get_path p v of None \<Rightarrow> None | Some u \<Rightarrow> get_path q u)"
  by (induction p arbitrary: v) (auto split: json.splits option.splits)

lemma get_forEach_key:
  "get_path (k # r) (forEach_key g u) =
     (case get_path [k] u of None \<Rightarrow> None | Some e \<Rightarrow> get_path r (g e))"
proof (cases u)
  case (JObj fs)
  have "map_of (map (\<lambda>kv. (fst kv, g (snd kv))) fs) k = map_option g (map_of fs k)"
    by (induction fs) auto
  then show ?thesis using JObj by (simp split: option.splits)
qed simp_all

lemma get_castArray: "get_path p (castArray e p) = map_option lodash_castArray (get_path p e)"
  by (simp add: castArray_eq get_modify_same del: modify_path.simps get_path.simps)

lemma get_castArray_diverge: "diverge p q \<Longrightarrow> get_path p (castArray e q) = get_path p e"
  by (simp add: castArray_eq get_modify_diverge del: modify_path.simps get_path.simps)


lemma diverge_append: "diverge q q' \<Longrightarrow> diverge (q @ r) q'"
  by (induction q q' rule: diverge.induct) (auto split: if_splits)

lemma get_run_stages_diverge:
  "\<forall>qg \<in> set st. diverge p (fst qg) \<Longrightarrow> get_path p (run_stages st v) = get_path p v"
  by (induction st arbitrary: v)
     (simp_all add: run_stages_Nil run_stages_Cons get_modify_diverge del: modify_path.simps get_path.simps)

lemma get_dynamic:
  "get_path (q @ key # r) (modify_path q (forEach_key g) w) =
     (case get_path (q @ [key]) w of None \<Rightarrow> None | Some e \<Rightarrow> get_path r (g e))"
  by (simp add: get_modify_below get_forEach_key get_path_append [of q "[key]"]
      del: modify_path.simps get_path.simps split: option.splits)

lemma get_path_snoc:
  "get_path (q @ key # r) w =
     (case get_path (q @ [key]) w of None \<Rightarrow> None | Some e \<Rightarrow> get_path r e)"
  using get_path_append [of "q @ [key]" r w] by simp

lemma get_run_stages_dynamic:
  assumes "\<forall>qg \<in> set st1. diverge q (fst qg)" and "\<forall>qg \<in> set st2. diverge q (fst qg)"
    and "\<And>e. get_path r (g e) = map_option f (get_path r e)"
  shows "get_path (q @ key # r) (run_stages (st1 @ (q, forEach_key g) # st2) v) =
           map_option f (get_path (q @ key # r) v)"
proof -
  have d1: "\<forall>qg \<in> set st1. diverge (q @ [key]) (fst qg)"
    and d1': "\<forall>qg \<in> set st1. diverge (q @ key # r) (fst qg)"
    and d2: "\<forall>qg \<in> set st2. diverge (q @ key # r) (fst qg)"
    using assms(1,2) by (simp_all add: diverge_append)
  have "get_path (q @ key # r) (run_stages (st1 @ (q, forEach_key g) # st2) v)
          = get_path (q @ key # r) (modify_path q (forEach_key g) (run_stages st1 v))"
    using d2 by (simp add: run_stages_def get_run_stages_diverge [unfolded run_stages_def]
        del: modify_path.simps get_path.simps)
  also have "\<dots> = (case get_path (q @ [key]) (run_stages st1 v) of None \<Rightarrow> None
                     | Some e \<Rightarrow> get_path r (g e))"
    by (rule get_dynamic)
  also have "get_path (q @ [key]) (run_stages st1 v) = get_path (q @ [key]) v"
    using d1 by (rule get_run_stages_diverge)
  finally show ?thesis
    by (simp add: assms(3) get_path_snoc [of q key r v] del: get_path.simps split: option.splits)
qed

lemma get_fixed:
  "p \<in> set fixed_paths \<Longrightarrow>
     get_path p (castArrays server) = map_option lodash_castArray (get_path p server)"
  unfolding castArrays_run castArrays_stages_def run_stages_def fixed_paths_def
  by (auto simp add: get_modify_same get_modify_diverge simp del: modify_path.simps get_path.simps)

lemma get_cache:
  "get_path (cache_path key) (castArrays server) =
     map_option lodash_castArray (get_path (cache_path key) server)"
proof -
  let ?q = "[''gateway'', ''config'', ''cache'']"
  let ?r = "[''server'', ''preserveHeaders'']"
  let ?st1 = "take 7 castArrays_stages"
  let ?st2 = "drop 8 castArrays_stages"
  have st: "castArrays_stages = ?st1 @ (?q, forEach_key castCacheEntry) # ?st2"
    by (simp add: castArrays_stages_def)
  have entry: "get_path ?r (castCacheEntry e) = map_option lodash_castArray (get_path ?r e)" for e
    unfolding castCacheEntry_def by (rule get_castArray)
  have "get_path (?q @ key # ?r) (run_stages (?st1 @ (?q, forEach_key castCacheEntry) # ?st2) server)
          = map_option lodash_castArray (get_path (?q @ key # ?r) server)"
    by (rule get_run_stages_dynamic) (simp_all add: castArrays_stages_def entry del: get_path.simps)
  then show ?thesis
    unfolding castArrays_run st [symmetric] by (simp add: cache_path_def del: get_path.simps)
qed

lemma get_cors:
  assumes "p \<in> set (cors_paths key)"
  shows "get_path p (castArrays server) = map_option lodash_castArray (get_path p server)"
proof -
  let ?q = "[''gateway'', ''config'', ''cors'']"
  let ?st1 = "take 8 castArrays_stages"
  have st: "castArrays_stages = ?st1 @ (?q, forEach_key castCorsEntry) # []"
    by (simp add: castArrays_stages_def)
  obtain h where h: "h \<in> {''allowedHeaders'', ''exposedHeaders'', ''methods''}" and p: "p = ?q @ key # [h]"
    using assms by (auto simp: cors_paths_def)
  have entry: "get_path [h] (castCorsEntry e) = map_option lodash_castArray (get_path [h] e)" for e
    using h unfolding castCorsEntry_def
    by (auto simp add: get_castArray get_castArray_diverge simp del: get_path.simps)
  have "get_path (?q @ key # [h]) (run_stages (?st1 @ (?q, forEach_key castCorsEntry) # []) server)
          = map_option lodash_castArray (get_path (?q @ key # [h]) server)"
    by (rule get_run_stages_dynamic) (simp_all add: castArrays_stages_def entry del: get_path.simps)
  then show ?thesis
    unfolding castArrays_run st [symmetric] p by simp
qed



subsection \<open>The Array Normalizer\<close>

lemma castArrays_idem: "castArrays (castArrays server) = castArrays server"
  by (simp only: castArrays_run run_stages_idem [OF separate_castArrays_stages idem_castArrays_stages])

lemma lodash_castArray_cases:
  "map_option lodash_castArray w =
     (case w of None \<Rightarrow> None | Some v \<Rightarrow> Some (if isArray v then v else JArr [v]))"
proof (cases w)
  case (Some v)
  then show ?thesis by (cases v) simp_all
qed simp

text \<open>
  C8. At every target path of the Array Normalizer (the seven fixed paths, the
  \<^verbatim>\<open>server.preserveHeaders\<close> of every named cache entry, the \<^verbatim>\<open>allowedHeaders\<close>,
  \<^verbatim>\<open>exposedHeaders\<close> and \<^verbatim>\<open>methods\<close> of every named cors entry): a value that is not a
  sequence is replaced by the one-element sequence holding it, a sequence stays as it is,
  and an absent path stays absent, its \<^verbatim>\<open>castArray\<close> call changing nothing. Normalizing
  twice gives the same as normalizing once.
\<close>

theorem castArrays_normalizes:
  "(p \<in> set fixed_paths \<or> p = cache_path key \<or> p \<in> set (cors_paths key) \<longrightarrow>
      get_path p (castArrays server) =
        (case get_path p server of
           None \<Rightarrow> None
         | Some v \<Rightarrow> Some (if isArray v then v else JArr [v]))
      \<and> (get_path p server = None \<longrightarrow> castArray server p = server))
   \<and> castArrays (castArrays server) = castArrays server"
proof (intro conjI impI)
  assume target: "p \<in> set fixed_paths \<or> p = cache_path key \<or> p \<in> set (cors_paths key)"
  then have "get_path p (castArrays server) = map_option lodash_castArray (get_path p server)"
    using get_fixed [of p server] get_cache [of key server] get_cors [of p key server] by blast
  then show "get_path p (castArrays server) =
        (case get_path p server of
           None \<Rightarrow> None
         | Some v \<Rightarrow> Some (if isArray v then v else JArr [v]))"
    by (simp only: lodash_castArray_cases)
next
  assume "get_path p server = None"
  then show "castArray server p = server"
    by (simp add: castArray_def has_path_def)
next
  show "castArrays (castArrays server) = castArrays server"
    by (rule castArrays_idem)
qed

text \<open>
  A filter written as the single name \<^verbatim>\<open>a\<close>, a cluster written as one endpoint object and
  a cache entry with one header name become one-element sequences.
\<close>

theorem castArrays_normalizes_witness:
  "[''gateway'', ''admin'', ''filter''] \<in> set fixed_paths
   \<and> get_path [''gateway'', ''admin'', ''filter'']
        (castArrays (JObj [(''gateway'', JObj [(''admin'', JObj [(''filter'', JStr ''a'')])])]))
       = Some (JArr [JStr ''a''])
   \<and> get_path [''database'', ''redis'', ''cluster'']
        (castArrays (JObj [(''gateway'', JObj [(''admin'', JObj [(''filter'', JStr ''a'')])])]))
       = None"
  using castArrays_normalizes
          [of "[''gateway'', ''admin'', ''filter'']" "[]"
              "JObj [(''gateway'', JObj [(''admin'', JObj [(''filter'', JStr ''a'')])])]"]
        castArrays_normalizes
          [of "[''database'', ''redis'', ''cluster'']" "[]"
              "JObj [(''gateway'', JObj [(''admin'', JObj [(''filter'', JStr ''a'')])])]"]
  by (simp add: fixed_paths_def)

subsection \<open>What the stages leave alone\<close>

lemma frame_refl: "frame s s"
  by (simp add: frame_def)

lemma frame_trans: "frame s s1 \<Longrightarrow> frame s1 s2 \<Longrightarrow> frame s s2"
  by (auto simp: frame_def)

lemma frame_suspend: "frame s s1 \<Longrightarrow> frame s (suspend s1)"
  by (auto simp: frame_def suspend_def)

lemma frame_config: "frame s s1 \<Longrightarrow> frame s (s1\<lparr>config := c\<rparr>)"
  by (auto simp: frame_def)

lemma frame_get: "gatewayService_get env s = (r, s') \<Longrightarrow> frame s s'"
  by (auto simp: gatewayService_get_def frame_def Let_def split: if_splits)

lemma frame_save: "gatewayService_save env v s = (r, s') \<Longrightarrow> frame s s'"
  by (auto simp: gatewayService_save_def frame_def Let_def split: if_splits)

lemma frame_register: "gatewayService_registerGatewayVersion env s = (r, s') \<Longrightarrow> frame s s'"
  by (auto simp: gatewayService_registerGatewayVersion_def frame_def Let_def split: if_splits)

lemma frame_flushdb: "flushdb env s = (r, s') \<Longrightarrow> frame s s'"
  by (auto simp: flushdb_def frame_def Let_def split: if_splits)

lemma frame_loadDefaultGatewayConfig: "loadDefaultGatewayConfig env s = (r, s') \<Longrightarrow> frame s s'"
  by (auto simp: loadDefaultGatewayConfig_def frame_def Let_def split: option.splits sum.splits)

lemma frame_getConfigFromDB: "getConfigFromDB env s = (r, s') \<Longrightarrow> frame s s'"
  unfolding getConfigFromDB_def Let_def
  by (auto split: prod.splits sum.splits option.splits if_splits
      intro!: frame_suspend frame_config
      dest!: frame_get frame_save frame_register frame_loadDefaultGatewayConfig
      intro: frame_trans frame_refl)


lemma frame_loadDatabaseConfig: "loadDatabaseConfig env s = (r, s') \<Longrightarrow> frame s s'"
  unfolding loadDatabaseConfig_def Let_def
  by (auto split: prod.splits sum.splits if_splits
      dest!: frame_flushdb frame_getConfigFromDB simp: frame_def suspend_def)

lemma frame_resolveTlsPaths: "resolveTlsPaths s = (r, s') \<Longrightarrow> frame s s'"
  unfolding resolveTlsPaths_def
  by (auto split: option.splits sum.splits if_splits intro: frame_config frame_refl)

lemma quiet_refl: "quiet s s"
  by (auto simp: quiet_def intro: exI [of _ 0])

lemma quiet_suspend: "quiet s s1 \<Longrightarrow> quiet s (suspend s1)"
  unfolding quiet_def suspend_def
  by (auto simp: replicate_append_same intro: exI [of _ "Suc n" for n])

lemma quiet_first:
  "quiet s s1 \<Longrightarrow> \<exists>rest. observed (suspend s1) = observed s @ (config s, isLoaded s) # rest"
  unfolding quiet_def suspend_def
  by (auto simp: replicate_append_same)

lemma quiet_loadDefaultServerConfig: "loadDefaultServerConfig env s = (r, s') \<Longrightarrow> quiet s s'"
proof -
  have a: "quiet s (suspend (s\<lparr>prompts := Suc (prompts s)\<rparr>))"
    unfolding quiet_def suspend_def by (auto intro: exI [of _ "Suc 0"])
  have b: "quiet s (suspend ((suspend (s\<lparr>prompts := Suc (prompts s)\<rparr>))\<lparr>writeRequests := f\<rparr>))" for f
    unfolding quiet_def suspend_def by (auto intro: exI [of _ "Suc (Suc 0)"])
  have c: "quiet s (suspend (suspend (s\<lparr>prompts := Suc (prompts s)\<rparr>)))"
    unfolding quiet_def suspend_def by (auto intro: exI [of _ "Suc (Suc 0)"])
  assume "loadDefaultServerConfig env s = (r, s')"
  then show ?thesis
    unfolding loadDefaultServerConfig_def Let_def
    by (auto split: sum.splits if_splits simp: a b c)
qed

lemma quiet_loadServerConfig: "loadServerConfig env s f = (r, s') \<Longrightarrow> quiet s s'"
  unfolding loadServerConfig_def
  by (auto split: sum.splits if_splits prod.splits option.splits
      dest!: quiet_loadDefaultServerConfig intro: quiet_refl quiet_suspend)

lemma loadGatewayConfig_frame: "loadGatewayConfig env s f = (r, s') \<Longrightarrow> frame s s'"
  unfolding loadGatewayConfig_def Let_def
  by (auto split: sum.splits prod.splits
      dest!: quiet_loadServerConfig frame_loadDatabaseConfig frame_resolveTlsPaths
      simp: frame_def quiet_def suspend_def)


lemma loadGatewayConfig_first:
  assumes "loadGatewayConfig env s f = (r, s')"
  shows "\<exists>rest. observed s' = observed s @ (config s, isLoaded s) # rest"
proof -
  let ?file = "if startsWith_dot (removeExtension (trim f))
               then path_join [cwd env, removeExtension (trim f)] else removeExtension (trim f)"
  obtain r1 s1 where l: "loadServerConfig env s ?file = (r1, s1)"
    by (cases "loadServerConfig env s ?file")
  from quiet_first [OF quiet_loadServerConfig [OF l]]
  obtain rest where first: "observed (suspend s1) = observed s @ (config s, isLoaded s) # rest"
    by blast
  have "frame (suspend s1) s'"
    using assms l unfolding loadGatewayConfig_def Let_def
    by (auto split: sum.splits prod.splits
        dest!: frame_loadDatabaseConfig frame_resolveTlsPaths
        simp: frame_def suspend_def)
  then obtain more where "observed s' = observed (suspend s1) @ more"
    by (auto simp: frame_def)
  with first show ?thesis by simp
qed

lemma reload_first:
  "\<exists>rest. observed (snd (reload env s)) = observed s @ (None, isLoaded s) # rest"
proof -
  obtain r s1 where l: "loadGatewayConfig env (s\<lparr>config := None\<rparr>) (configFile env) = (r, s1)"
    by (cases "loadGatewayConfig env (s\<lparr>config := None\<rparr>) (configFile env)")
  from loadGatewayConfig_first [OF l]
  obtain rest where "observed s1 = observed s @ (None, isLoaded s) # rest" by auto
  then show ?thesis
    using l unfolding reload_def Let_def
    by (auto split: sum.splits simp: suspend_def emit_def)
qed


subsection \<open>The Lifecycle Controller\<close>

text \<open>
  C10. Only the \<^verbatim>\<open>gateway\<close> getter checks the loaded flag: while nothing is loaded it
  throws the error that tells the caller to wait for the \<^verbatim>\<open>load\<close> event. The getters
  \<^verbatim>\<open>rootPath\<close>, \<^verbatim>\<open>middlewarePath\<close> and \<^verbatim>\<open>database\<close> do not depend on the flag and read
  the configuration object as it is: on a configuration that is absent, as in the
  controller before its first load and in the state that every \<^verbatim>\<open>reload\<close> exposes first,
  they throw on the absent object.
\<close>

theorem getters_loaded_check:
  "(\<not> isLoaded s \<longrightarrow> gateway s = Inl NotLoadedError)
   \<and> (isLoaded s \<longrightarrow>
        gateway s = (case config s of None \<Rightarrow> Inl TypeError
                     | Some cfg \<Rightarrow> Inr (get_prop cfg ''gateway'')))
   \<and> rootPath (s\<lparr>isLoaded := b\<rparr>) = rootPath s
   \<and> middlewarePath (s\<lparr>isLoaded := b\<rparr>) = middlewarePath s
   \<and> database (s\<lparr>isLoaded := b\<rparr>) = database s
   \<and> (config s = None \<longrightarrow>
        rootPath s = Inl TypeError \<and> middlewarePath s = Inl TypeError
        \<and> database s = Inl TypeError)
   \<and> (\<forall>cfg. config s = Some cfg \<longrightarrow>
        rootPath s = Inr (get_prop cfg ''rootPath'')
        \<and> middlewarePath s = Inr (get_prop cfg ''middlewarePath'')
        \<and> database s = Inr (get_prop cfg ''database''))
   \<and> config (initial fs st) = None \<and> \<not> isLoaded (initial fs st)
   \<and> (\<exists>rest. observed (snd (reload env s)) = observed s @ (None, isLoaded s) # rest)"
  using reload_first [of env s]
  by (simp add: gateway_def ensureLoaded_def rootPath_def middlewarePath_def database_def
      initial_def)

theorem getters_loaded_check_witness:
  "\<not> isLoaded (initial Map.empty None)
   \<and> gateway (initial Map.empty None) = Inl NotLoadedError
   \<and> config (initial Map.empty None) = None
   \<and> rootPath (initial Map.empty None) = Inl TypeError
   \<and> middlewarePath (initial Map.empty None) = Inl TypeError
   \<and> database (initial Map.empty None) = Inl TypeError"
  using getters_loaded_check [of "initial Map.empty None" False Map.empty None example_env]
  by (simp add: initial_def)

text \<open>
  C9. Whatever the pipeline throws: \<^verbatim>\<open>load\<close> ends normally, with the loaded flag off and
  an \<^verbatim>\<open>error\<close> notification that carries what was thrown; \<^verbatim>\<open>reload\<close> ends with the
  same error thrown to its caller and emits no notification.
\<close>

theorem load_notifies_reload_throws:
  "(\<not> isLoaded s \<and> loadGatewayConfig env s (configFile env) = (Inl e, s1) \<longrightarrow>
      load env s = (suspend s1)\<lparr>isLoaded := False, emitted := emitted s @ [ErrorEvent e]\<rparr>)
   \<and> (loadGatewayConfig env (s\<lparr>config := None\<rparr>) (configFile env) = (Inl e, s2) \<longrightarrow>
        reload env s = (Inl e, suspend s2) \<and> emitted (suspend s2) = emitted s)"
proof (intro conjI impI)
  assume a: "\<not> isLoaded s \<and> loadGatewayConfig env s (configFile env) = (Inl e, s1)"
  then have "emitted s1 = emitted s"
    using loadGatewayConfig_frame [of env s "configFile env" "Inl e" s1] by (simp add: frame_def)
  with a show "load env s = (suspend s1)\<lparr>isLoaded := False, emitted := emitted s @ [ErrorEvent e]\<rparr>"
    by (simp add: load_def emit_def suspend_def)
next
  assume b: "loadGatewayConfig env (s\<lparr>config := None\<rparr>) (configFile env) = (Inl e, s2)"
  then show "reload env s = (Inl e, suspend s2)"
    by (simp add: reload_def)
  from b show "emitted (suspend s2) = emitted s"
    using loadGatewayConfig_frame [of env "s\<lparr>config := None\<rparr>" "configFile env" "Inl e" s2]
    by (simp add: frame_def suspend_def)
qed

lemma broken_run:
  "fst (loadGatewayConfig example_env (initial broken_files None) (configFile example_env))
     = Inl (ParseError ''/srv/tree-gateway.yml'')"
  by code_simp

lemma broken_rerun:
  "fst (loadGatewayConfig example_env ((initial broken_files None)\<lparr>config := None\<rparr>)
          (configFile example_env))
     = Inl (ParseError ''/srv/tree-gateway.yml'')"
  by code_simp

theorem load_notifies_reload_throws_witness:
  "\<not> isLoaded (initial broken_files None)
   \<and> fst (loadGatewayConfig example_env (initial broken_files None) (configFile example_env))
       = Inl (ParseError ''/srv/tree-gateway.yml'')
   \<and> emitted (load example_env (initial broken_files None))
       = [ErrorEvent (ParseError ''/srv/tree-gateway.yml'')]
   \<and> \<not> isLoaded (load example_env (initial broken_files None))
   \<and> fst (reload example_env (initial broken_files None))
       = Inl (ParseError ''/srv/tree-gateway.yml'')
   \<and> emitted (snd (reload example_env (initial broken_files None))) = []"
proof -
  let ?s = "initial broken_files None"
  let ?e = "ParseError ''/srv/tree-gateway.yml''"
  have run: "loadGatewayConfig example_env ?s (configFile example_env)
               = (Inl ?e, snd (loadGatewayConfig example_env ?s (configFile example_env)))"
    using broken_run by (simp add: prod_eq_iff)
  have rerun: "loadGatewayConfig example_env (?s\<lparr>config := None\<rparr>) (configFile example_env)
               = (Inl ?e, snd (loadGatewayConfig example_env (?s\<lparr>config := None\<rparr>)
                                  (configFile example_env)))"
    using broken_rerun by (simp add: prod_eq_iff)
  have fresh: "\<not> isLoaded ?s" "emitted ?s = []"
    by (simp_all add: initial_def)
  show ?thesis
    using load_notifies_reload_throws
            [of ?s example_env ?e "snd (loadGatewayConfig example_env ?s (configFile example_env))"
                "snd (loadGatewayConfig example_env (?s\<lparr>config := None\<rparr>)
                        (configFile example_env))"]
          run rerun fresh broken_run
    by (simp add: suspend_def)
qed

subsection \<open>The Path Defaulter\<close>

lemma dirname_dot:
  assumes "\<not> startsWith_dot configFileName" and "startsWith_dot (path_dirname configFileName)"
  shows "path_dirname configFileName = ''.''"
proof (cases configFileName)
  case Nil
  then show ?thesis by (simp add: path_dirname_def)
next
  case (Cons c rest)
  define pre where
    "pre = rev (dropWhile (\<lambda>x. x \<noteq> CHR ''/'')
                  (rev (rev (dropWhile (\<lambda>x. x = CHR ''/'') (rev rest)))))"
  have c: "c \<noteq> CHR ''.''"
    using assms(1) Cons by (simp add: startsWith_dot_def)
  have d: "path_dirname configFileName =
             (if pre = [] then (if c = CHR ''/'' then ''/'' else ''.'')
              else if c = CHR ''/'' \<and> length pre = 1 then ''//'' else c # butlast pre)"
    unfolding Cons pre_def path_dirname_def Let_def by (simp only: list.case)
  show ?thesis
  proof (cases "pre = []")
    case True
    with d assms(2) show ?thesis by (simp add: startsWith_dot_def split: if_splits)
  next
    case False
    with d assms(2) c show ?thesis by (simp add: startsWith_dot_def split: if_splits)
  qed
qed

lemma join_dot_dot: "path_join [''.'', ''.''] = ''.''"
  by (simp add: path_join_def path_normalize_def)

lemma join_slash_hd: "a \<noteq> [] \<Longrightarrow> hd (join_slash (a # args)) = hd a"
  by (cases args) (auto)

lemma join_slash_nonempty: "a \<noteq> [] \<Longrightarrow> join_slash (a # args) \<noteq> []"
  by (cases args) (auto)

lemma normalize_absolute: "p \<noteq> [] \<Longrightarrow> hd p = CHR ''/'' \<Longrightarrow> hd (path_normalize p) = CHR ''/''"
  by (simp add: path_normalize_def Let_def)

lemma path_join_absolute:
  "a \<noteq> [] \<Longrightarrow> hd a = CHR ''/'' \<Longrightarrow> \<not> startsWith_dot (path_join (a # args))"
proof -
  assume a: "a \<noteq> []" "hd a = CHR ''/''"
  let ?j = "join_slash (filter (\<lambda>a. a \<noteq> []) (a # args))"
  have "?j \<noteq> []" "hd ?j = CHR ''/''"
    using a by (simp_all add: join_slash_hd join_slash_nonempty)
  then have "hd (path_join (a # args)) = CHR ''/''" "path_join (a # args) \<noteq> []"
    unfolding path_join_def Let_def using normalize_absolute [of ?j]
    by (auto simp: path_normalize_def Let_def)
  then show ?thesis
    by (cases "path_join (a # args)") (auto simp: startsWith_dot_def)
qed

lemma get_prop_defaults1_same:
  "get_prop (defaults1 (JObj fs) k v) k = Some (case map_of fs k of None \<Rightarrow> v | Some u \<Rightarrow> u)"
  by (auto simp: map_add_def split: option.splits)

lemma get_prop_defaults1_other:
  "k' \<noteq> k \<Longrightarrow> get_prop (defaults1 (JObj fs) k v) k' = map_of fs k'"
  by (auto simp: map_add_def split: option.splits)

lemma defaults1_obj: "\<exists>fs'. defaults1 (JObj fs) k v = JObj fs'"
  by (simp split: option.splits)

lemma resolveRelative_top:
  assumes "resolveRelative base [k] (JObj fs) = Inr x"
  shows "\<exists>fs'. x = JObj fs'
     \<and> (\<forall>k'. k' \<noteq> k \<longrightarrow> map_of fs' k' = map_of fs k')
     \<and> (map_of fs k = None \<longrightarrow> map_of fs' k = None)
     \<and> (\<forall>v. map_of fs k = Some v \<longrightarrow> \<not> lodash_startsWith_dot v \<longrightarrow> map_of fs' k = Some v)
     \<and> (\<forall>v. map_of fs k = Some v \<longrightarrow> lodash_startsWith_dot v \<longrightarrow>
            (\<exists>j. path_join_js base (Some v) = Inr j \<and> map_of fs' k = Some j))"
  using assms
  by (auto simp: resolveRelative_def map_of_map_entry split: option.splits if_splits sum.splits)


lemma path_join_js_Inr:
  "path_join_js a b = Inr j \<Longrightarrow> \<exists>x y. a = Some (JStr x) \<and> b = Some (JStr y) \<and> j = JStr (path_join [x, y])"
  by (cases "(a, b)" rule: path_join_js.cases) auto

text \<open>
  C6. In every configuration that the Path Defaulter resolves, \<^verbatim>\<open>rootPath\<close> is a string
  \<open>R\<close>. The steps run in order, each on the value the step before left:
  an absent \<^verbatim>\<open>rootPath\<close> defaults to the directory of the configuration file (and that
  is \<open>R\<close> whenever the file name does not start with a dot); a \<^verbatim>\<open>rootPath\<close> that starts
  with a dot is joined to the directory of the configuration file, any other is left as
  it is; an absent \<^verbatim>\<open>middlewarePath\<close> defaults to \<open>R\<close> joined with \<^verbatim>\<open>middleware\<close>
  (the result whenever \<open>R\<close> is absolute; a default that starts with a dot goes through
  the next step like any other value); a \<^verbatim>\<open>middlewarePath\<close> that starts with a dot is
  joined to \<open>R\<close>, not to the directory of the configuration file, any other is left as
  it is.
\<close>

theorem pathDefaulter_anchors:
  assumes ok: "pathDefaulter configFileName sc = Inr cfg'"
  shows "\<exists>R. get_prop cfg' ''rootPath'' = Some (JStr R)
     \<and> (map_of sc ''rootPath'' = None \<longrightarrow>
          R = (if startsWith_dot (path_dirname configFileName)
               then path_join [path_dirname configFileName, path_dirname configFileName] else path_dirname configFileName)
          \<and> (\<not> startsWith_dot configFileName \<longrightarrow> R = path_dirname configFileName))
     \<and> (\<forall>r. map_of sc ''rootPath'' = Some (JStr r) \<longrightarrow>
          R = (if startsWith_dot r then path_join [path_dirname configFileName, r] else r))
     \<and> (map_of sc ''middlewarePath'' = None \<longrightarrow>
          get_prop cfg' ''middlewarePath'' =
            Some (JStr (if startsWith_dot (path_join [R, ''middleware''])
                        then path_join [R, path_join [R, ''middleware'']]
                        else path_join [R, ''middleware'']))
          \<and> (R \<noteq> [] \<and> hd R = CHR ''/'' \<longrightarrow>
                get_prop cfg' ''middlewarePath'' = Some (JStr (path_join [R, ''middleware'']))))
     \<and> (\<forall>m. map_of sc ''middlewarePath'' = Some (JStr m) \<longrightarrow>
          get_prop cfg' ''middlewarePath'' =
            Some (JStr (if startsWith_dot m then path_join [R, m] else m)))"
proof -
  let ?dir = "path_dirname configFileName"
  obtain fs1 where sc1: "defaults1 (JObj sc) ''rootPath'' (JStr ?dir) = JObj fs1"
    using defaults1_obj by blast
  have fs1_root: "map_of fs1 ''rootPath''
                    = Some (case map_of sc ''rootPath'' of None \<Rightarrow> JStr ?dir | Some u \<Rightarrow> u)"
    using get_prop_defaults1_same [of sc "''rootPath''" "JStr ?dir"] sc1 by simp
  have fs1_mw: "map_of fs1 ''middlewarePath'' = map_of sc ''middlewarePath''"
    using get_prop_defaults1_other [of "''middlewarePath''" "''rootPath''" sc "JStr ?dir"] sc1
    by simp
  obtain sc2 where r1: "resolveRelative (Some (JStr ?dir)) [''rootPath''] (JObj fs1) = Inr sc2"
    using ok sc1 by (auto simp: pathDefaulter_def Let_def split: sum.splits)
  from resolveRelative_top [OF r1] obtain fs2 where sc2: "sc2 = JObj fs2"
    and fs2_other: "\<And>k'. k' \<noteq> ''rootPath'' \<Longrightarrow> map_of fs2 k' = map_of fs1 k'"
    and fs2_keep: "\<And>v. map_of fs1 ''rootPath'' = Some v \<Longrightarrow> \<not> lodash_startsWith_dot v
                     \<Longrightarrow> map_of fs2 ''rootPath'' = Some v"
    and fs2_join: "\<And>v. map_of fs1 ''rootPath'' = Some v \<Longrightarrow> lodash_startsWith_dot v
                     \<Longrightarrow> \<exists>j. path_join_js (Some (JStr ?dir)) (Some v) = Inr j
                              \<and> map_of fs2 ''rootPath'' = Some j"
    by blast
  obtain m0 where j: "path_join_js (get_prop sc2 ''rootPath'') (Some (JStr ''middleware'')) = Inr m0"
    using ok sc1 r1 by (auto simp: pathDefaulter_def Let_def split: sum.splits)
  from path_join_js_Inr [OF j] obtain R where R: "map_of fs2 ''rootPath'' = Some (JStr R)"
    and m0: "m0 = JStr (path_join [R, ''middleware''])"
    using sc2 by auto
  obtain fs3 where sc3: "defaults1 sc2 ''middlewarePath'' m0 = JObj fs3"
    using defaults1_obj sc2 by blast
  have fs3_mw: "map_of fs3 ''middlewarePath''
                  = Some (case map_of sc ''middlewarePath'' of None \<Rightarrow> m0 | Some u \<Rightarrow> u)"
    using get_prop_defaults1_same [of fs2 "''middlewarePath''" m0] sc3 sc2
      fs2_other [of "''middlewarePath''"] fs1_mw by simp
  have fs3_root: "map_of fs3 ''rootPath'' = Some (JStr R)"
    using get_prop_defaults1_other [of "''rootPath''" "''middlewarePath''" fs2 m0] sc3 sc2 R
    by simp
  have r2: "resolveRelative (Some (JStr R)) [''middlewarePath''] (JObj fs3) = Inr cfg'"
    using ok sc1 r1 j sc3 fs3_root by (auto simp: pathDefaulter_def Let_def split: sum.splits)
  from resolveRelative_top [OF r2] obtain fs4 where cfg': "cfg' = JObj fs4"
    and fs4_other: "\<And>k'. k' \<noteq> ''middlewarePath'' \<Longrightarrow> map_of fs4 k' = map_of fs3 k'"
    and fs4_keep: "\<And>v. map_of fs3 ''middlewarePath'' = Some v \<Longrightarrow> \<not> lodash_startsWith_dot v
                     \<Longrightarrow> map_of fs4 ''middlewarePath'' = Some v"
    and fs4_join: "\<And>v. map_of fs3 ''middlewarePath'' = Some v \<Longrightarrow> lodash_startsWith_dot v
                     \<Longrightarrow> \<exists>j. path_join_js (Some (JStr R)) (Some v) = Inr j
                              \<and> map_of fs4 ''middlewarePath'' = Some j"
    by blast
  have root: "get_prop cfg' ''rootPath'' = Some (JStr R)"
    using cfg' fs4_other [of "''rootPath''"] fs3_root by simp
  have anchor_root: "R = (if startsWith_dot r then path_join [?dir, r] else r)"
    if "map_of fs1 ''rootPath'' = Some (JStr r)" for r
  proof (cases "startsWith_dot r")
    case True
    with fs2_join [OF that] R show ?thesis by auto
  next
    case False
    with fs2_keep [OF that] R show ?thesis by auto
  qed
  have anchor_mw: "get_prop cfg' ''middlewarePath''
                     = Some (JStr (if startsWith_dot m then path_join [R, m] else m))"
    if "map_of fs3 ''middlewarePath'' = Some (JStr m)" for m
  proof (cases "startsWith_dot m")
    case True
    with fs4_join [OF that] cfg' show ?thesis by auto
  next
    case False
    with fs4_keep [OF that] cfg' show ?thesis by auto
  qed
  have a1: "R = (if startsWith_dot ?dir then path_join [?dir, ?dir] else ?dir)"
    if "map_of sc ''rootPath'' = None"
    using anchor_root [of ?dir] fs1_root that by simp
  have a2: "R = ?dir" if "map_of sc ''rootPath'' = None" "\<not> startsWith_dot configFileName"
    using a1 [OF that(1)] dirname_dot [OF that(2)] join_dot_dot by (cases "startsWith_dot ?dir") auto
  have a3: "R = (if startsWith_dot r then path_join [?dir, r] else r)"
    if "map_of sc ''rootPath'' = Some (JStr r)" for r
    using anchor_root [of r] fs1_root that by simp
  have a4: "get_prop cfg' ''middlewarePath'' =
            Some (JStr (if startsWith_dot (path_join [R, ''middleware''])
                        then path_join [R, path_join [R, ''middleware'']]
                        else path_join [R, ''middleware'']))"
    if "map_of sc ''middlewarePath'' = None"
    using anchor_mw [of "path_join [R, ''middleware'']"] fs3_mw that m0 by simp
  have a5: "get_prop cfg' ''middlewarePath'' = Some (JStr (path_join [R, ''middleware'']))"
    if "map_of sc ''middlewarePath'' = None" "R \<noteq> []" "hd R = CHR ''/''"
    using a4 [OF that(1)] path_join_absolute [OF that(2,3), of "[''middleware'']"] by simp
  have a6: "get_prop cfg' ''middlewarePath'' =
            Some (JStr (if startsWith_dot m then path_join [R, m] else m))"
    if "map_of sc ''middlewarePath'' = Some (JStr m)" for m
    using anchor_mw [of m] fs3_mw that by simp
  show ?thesis
    using root a1 a2 a3 a4 a5 a6 by (intro exI [of _ R]) blast
qed


text \<open>
  The same relative text in both fields, with the configuration file in \<^verbatim>\<open>/srv/conf\<close>:
  the two anchors give different directories.
\<close>

lemma anchors_run:
  "pathDefaulter ''/srv/conf/app''
     [(''rootPath'', JStr ''./x''), (''middlewarePath'', JStr ''./x'')]
   = Inr (JObj [(''rootPath'', JStr ''/srv/conf/x''), (''middlewarePath'', JStr ''/srv/conf/x/x'')])"
  by code_simp

theorem pathDefaulter_anchors_witness:
  "pathDefaulter ''/srv/conf/app''
     [(''rootPath'', JStr ''./x''), (''middlewarePath'', JStr ''./x'')]
   = Inr (JObj [(''rootPath'', JStr ''/srv/conf/x''), (''middlewarePath'', JStr ''/srv/conf/x/x'')])
   \<and> path_dirname ''/srv/conf/app'' = ''/srv/conf''
   \<and> (\<exists>R. R = path_join [''/srv/conf'', ''./x'']
          \<and> get_prop (JObj [(''rootPath'', JStr ''/srv/conf/x''),
                             (''middlewarePath'', JStr ''/srv/conf/x/x'')]) ''middlewarePath''
              = Some (JStr (path_join [R, ''./x''])))"
proof -
  have dir: "path_dirname ''/srv/conf/app'' = ''/srv/conf''"
    by code_simp
  from pathDefaulter_anchors [OF anchors_run]
  obtain R where
    "\<forall>r. map_of [(''rootPath'', JStr ''./x''), (''middlewarePath'', JStr ''./x'')] ''rootPath''
            = Some (JStr r) \<longrightarrow>
          R = (if startsWith_dot r then path_join [path_dirname ''/srv/conf/app'', r] else r)"
    "\<forall>m. map_of [(''rootPath'', JStr ''./x''), (''middlewarePath'', JStr ''./x'')] ''middlewarePath''
            = Some (JStr m) \<longrightarrow>
          get_prop (JObj [(''rootPath'', JStr ''/srv/conf/x''),
                          (''middlewarePath'', JStr ''/srv/conf/x/x'')]) ''middlewarePath''
            = Some (JStr (if startsWith_dot m then path_join [R, m] else m))"
    by blast
  then have "R = path_join [''/srv/conf'', ''./x'']"
    "get_prop (JObj [(''rootPath'', JStr ''/srv/conf/x''),
                     (''middlewarePath'', JStr ''/srv/conf/x/x'')]) ''middlewarePath''
       = Some (JStr (path_join [R, ''./x'']))"
    by (simp_all add: dir startsWith_dot_def)
  then show ?thesis
    using anchors_run dir by blast
qed

text \<open>
  With the configuration file named \<^verbatim>\<open>tree-gateway\<close> (a relative name without a leading
  dot) and \<^verbatim>\<open>rootPath: ../a/b\<close>, the resolved \<^verbatim>\<open>rootPath\<close> still starts with a dot, so
  does the default \<^verbatim>\<open>../a/b/middleware\<close>, and the last step joins it to \<^verbatim>\<open>rootPath\<close>
  again: the absent \<^verbatim>\<open>middlewarePath\<close> does not end as \<^verbatim>\<open>rootPath\<close> plus
  \<^verbatim>\<open>/middleware\<close>.
\<close>

theorem middlewarePath_default_counterexample:
  "pathDefaulter ''tree-gateway'' [(''rootPath'', JStr ''../a/b'')]
     = Inr (JObj [(''rootPath'', JStr ''../a/b''),
                  (''middlewarePath'', JStr ''../a/a/b/middleware'')])
   \<and> path_join [''../a/b'', ''middleware''] = ''../a/b/middleware''
   \<and> ''../a/b'' @ ''/middleware'' \<noteq> ''../a/a/b/middleware''"
  by code_simp

subsection \<open>Merging with fallback\<close>

lemma merge_fields_lookup:
  "distinct (map fst ss) \<Longrightarrow>
     map_of (merge_fields fs ss) k =
       (case map_of fs k of
          None \<Rightarrow> map_of ss k
        | Some ov \<Rightarrow> Some (case map_of ss k of None \<Rightarrow> ov | Some sv \<Rightarrow> customDefaultsMerge ov sv))"
proof (induction ss arbitrary: fs)
  case Nil
  then show ?case by (simp split: option.splits)
next
  case (Cons kv ss)
  obtain k0 sv0 where kv: "kv = (k0, sv0)" by (cases kv)
  from Cons.prems kv have absent: "map_of ss k0 = None" and dist: "distinct (map fst ss)"
    by (auto simp: map_of_eq_None_iff)
  show ?case
  proof (cases "map_of fs k0")
    case None
    then show ?thesis
      using Cons.IH [OF dist, of "fs @ [(k0, sv0)]"] kv absent
      by (auto simp: map_add_def split: option.splits)
  next
    case (Some ov)
    then show ?thesis
      using Cons.IH [OF dist, of "AList.update k0 (customDefaultsMerge ov sv0) fs"] kv absent
      by (auto simp: update_conv' split: option.splits)
  qed
qed

lemma customDefaultsMerge_scalar:
  "\<not> (isObject ov \<and> isObject sv) \<Longrightarrow> customDefaultsMerge ov sv = ov"
  by (cases "(ov, sv)" rule: customDefaultsMerge.cases) auto

lemma truthy_customDefaultsMerge: "truthy (customDefaultsMerge v w) = truthy v"
  by (cases "(v, w)" rule: customDefaultsMerge.cases) auto

lemma truthy_defaultsDeep: "truthy (defaultsDeep v w) = truthy v"
  by (auto simp: defaultsDeep_def truthy_customDefaultsMerge split: option.splits json.splits)

lemma length_merge_elems: "length (merge_elems xs ys) = max (length xs) (length ys)"
proof (induction xs arbitrary: ys)
  case Nil
  then show ?case by (cases ys) auto
next
  case (Cons x xs)
  then show ?case by (cases ys) auto
qed

lemma nth_merge_elems:
  "i < max (length xs) (length ys) \<Longrightarrow>
     merge_elems xs ys ! i =
       (if i < length xs then (if i < length ys then customDefaultsMerge (xs ! i) (ys ! i) else xs ! i)
        else ys ! i)"
proof (induction xs arbitrary: ys i)
  case Nil
  then show ?case by (cases ys) auto
next
  case (Cons x xs)
  show ?case
  proof (cases ys)
    case Nil
    then show ?thesis using Cons.prems by simp
  next
    case (Cons y ys')
    then show ?thesis using Cons.IH [of "i - 1" ys'] Cons.prems by (cases i) auto
  qed
qed

lemma defaultsDeep_objects:
  "defaultsDeep (JObj os) (Some (JObj bs)) = JObj (merge_fields os bs)"
  by (simp add: defaultsDeep_def)

lemma defaultsDeep_falsy: "\<not> truthy_opt w \<Longrightarrow> defaultsDeep v w = v"
  by (auto simp: defaultsDeep_def truthy_opt_def split: option.splits)


text \<open>
  C7, as the code has it. With no environment name (\<^verbatim>\<open>NODE_ENV\<close> unset or empty) the
  base value passes through unchanged. With a name and an overlay file, the result is the
  overlay merged over the base: a base that is absent changes nothing; on objects, a key
  the overlay omits has the base's value, a key only the overlay defines has the
  overlay's value, and a key both define has the overlay's value unless both values are
  containers. Two objects are then merged by the same rule, and two sequences index by
  index: the overlay's elements come first, each merged with the base's element at the
  same index, followed by the base's elements at the indices the overlay does not have.
\<close>

theorem environment_overlay_merge:
  assumes "loadConfigObject s configFileName = Inr B"
  shows
   "((NODE_ENV env = None \<or> NODE_ENV env = Some []) \<and> truthy B \<longrightarrow>
       loadServerConfig env s configFileName = (Inr B, s))
    \<and> (\<forall>name ov. NODE_ENV env = Some name \<and> name \<noteq> []
          \<and> loadConfigObject s (configFileName @ ''-'' @ name) = Inr ov \<and> truthy ov \<longrightarrow>
          loadServerConfig env s configFileName = (Inr (defaultsDeep ov (Some B)), s)
          \<and> (\<not> truthy B \<longrightarrow> defaultsDeep ov (Some B) = ov)
          \<and> (\<forall>os bs k. ov = JObj os \<and> B = JObj bs \<and> distinct (map fst bs) \<longrightarrow>
                get_prop (defaultsDeep ov (Some B)) k =
                  (case map_of os k of
                     None \<Rightarrow> map_of bs k
                   | Some x \<Rightarrow>
                       Some (case map_of bs k of
                               None \<Rightarrow> x
                             | Some y \<Rightarrow> customDefaultsMerge x y))))
    \<and> (\<forall>x y. \<not> (isObject x \<and> isObject y) \<longrightarrow> customDefaultsMerge x y = x)
    \<and> (\<forall>os bs k. distinct (map fst bs) \<longrightarrow>
          get_prop (customDefaultsMerge (JObj os) (JObj bs)) k =
            (case map_of os k of
               None \<Rightarrow> map_of bs k
             | Some x \<Rightarrow>
                 Some (case map_of bs k of None \<Rightarrow> x | Some y \<Rightarrow> customDefaultsMerge x y)))
    \<and> (\<forall>xs ys. \<exists>zs. customDefaultsMerge (JArr xs) (JArr ys) = JArr zs
          \<and> length zs = max (length xs) (length ys)
          \<and> (\<forall>i. i < length xs \<and> i < length ys \<longrightarrow> zs ! i = customDefaultsMerge (xs ! i) (ys ! i))
          \<and> (\<forall>i. i < length xs \<and> length ys \<le> i \<longrightarrow> zs ! i = xs ! i)
          \<and> (\<forall>i. length xs \<le> i \<and> i < length ys \<longrightarrow> zs ! i = ys ! i))"
proof (intro conjI allI impI)
  assume "(NODE_ENV env = None \<or> NODE_ENV env = Some []) \<and> truthy B"
  then show "loadServerConfig env s configFileName = (Inr B, s)"
    using assms by (auto simp: loadServerConfig_def)
next
  fix name ov
  assume a: "NODE_ENV env = Some name \<and> name \<noteq> []
          \<and> loadConfigObject s (configFileName @ ''-'' @ name) = Inr ov \<and> truthy ov"
  then show "loadServerConfig env s configFileName = (Inr (defaultsDeep ov (Some B)), s)"
    using assms by (simp add: loadServerConfig_def truthy_defaultsDeep)
  show "defaultsDeep ov (Some B) = ov" if "\<not> truthy B"
    using that by (simp add: defaultsDeep_falsy truthy_opt_def)
  fix os bs k
  assume "ov = JObj os \<and> B = JObj bs \<and> distinct (map fst bs)"
  then show "get_prop (defaultsDeep ov (Some B)) k =
                  (case map_of os k of
                     None \<Rightarrow> map_of bs k
                   | Some x \<Rightarrow>
                       Some (case map_of bs k of
                               None \<Rightarrow> x
                             | Some y \<Rightarrow> customDefaultsMerge x y))"
    by (simp add: defaultsDeep_objects merge_fields_lookup)
next
  fix x y
  assume "\<not> (isObject x \<and> isObject y)"
  then show "customDefaultsMerge x y = x" by (rule customDefaultsMerge_scalar)
next
  fix os bs :: fields and k :: string
  assume "distinct (map fst bs)"
  then show "get_prop (customDefaultsMerge (JObj os) (JObj bs)) k =
            (case map_of os k of
               None \<Rightarrow> map_of bs k
             | Some x \<Rightarrow>
                 Some (case map_of bs k of None \<Rightarrow> x | Some y \<Rightarrow> customDefaultsMerge x y))"
    by (simp add: merge_fields_lookup)
next
  fix xs ys
  show "\<exists>zs. customDefaultsMerge (JArr xs) (JArr ys) = JArr zs
          \<and> length zs = max (length xs) (length ys)
          \<and> (\<forall>i. i < length xs \<and> i < length ys \<longrightarrow> zs ! i = customDefaultsMerge (xs ! i) (ys ! i))
          \<and> (\<forall>i. i < length xs \<and> length ys \<le> i \<longrightarrow> zs ! i = xs ! i)
          \<and> (\<forall>i. length xs \<le> i \<and> i < length ys \<longrightarrow> zs ! i = ys ! i)"
    by (intro exI [of _ "merge_elems xs ys"]) (auto simp: length_merge_elems nth_merge_elems)
qed



lemma overlay_base:
  "loadConfigObject (initial overlay_files None) ''/srv/tree-gateway''
     = Inr (JObj [(''database'', JObj []),
                  (''gateway'', JObj [(''filter'', JArr [JStr ''x'', JStr ''y''])])])"
  by code_simp

lemma overlay_production:
  "loadConfigObject (initial overlay_files None) (''/srv/tree-gateway'' @ ''-'' @ ''production'')
     = Inr (JObj [(''gateway'', JObj [(''filter'', JArr [JStr ''a''])])])"
  by code_simp

theorem environment_overlay_merge_witness:
  "loadConfigObject (initial overlay_files None) ''/srv/tree-gateway''
     = Inr (JObj [(''database'', JObj []),
                  (''gateway'', JObj [(''filter'', JArr [JStr ''x'', JStr ''y''])])])
   \<and> NODE_ENV overlay_env = Some ''production''
   \<and> loadConfigObject (initial overlay_files None) (''/srv/tree-gateway'' @ ''-'' @ ''production'')
       = Inr (JObj [(''gateway'', JObj [(''filter'', JArr [JStr ''a''])])])
   \<and> fst (loadServerConfig overlay_env (initial overlay_files None) ''/srv/tree-gateway'')
       = Inr (defaultsDeep (JObj [(''gateway'', JObj [(''filter'', JArr [JStr ''a''])])])
                (Some (JObj [(''database'', JObj []),
                             (''gateway'', JObj [(''filter'', JArr [JStr ''x'', JStr ''y''])])])))
   \<and> get_prop (defaultsDeep (JObj [(''gateway'', JObj [(''filter'', JArr [JStr ''a''])])])
                (Some (JObj [(''database'', JObj []),
                             (''gateway'', JObj [(''filter'', JArr [JStr ''x'', JStr ''y''])])])))
         ''database''
       = Some (JObj [])"
proof -
  have env: "NODE_ENV overlay_env = Some ''production''"
    by (simp add: overlay_env_def)
  show ?thesis
    using environment_overlay_merge [OF overlay_base, of overlay_env] env overlay_base
      overlay_production
    by simp
qed

text \<open>
  The overlay defines \<^verbatim>\<open>gateway.filter\<close> as the sequence of \<^verbatim>\<open>a\<close>, the base as the
  sequence of \<^verbatim>\<open>x\<close> and \<^verbatim>\<open>y\<close>: the result has \<^verbatim>\<open>a\<close> and \<^verbatim>\<open>y\<close> there, which is not
  the overlay's value.
\<close>

theorem overlay_sequence_counterexample:
  "loadConfigObject (initial overlay_files None) (''/srv/tree-gateway'' @ ''-'' @ ''production'')
     = Inr (JObj [(''gateway'', JObj [(''filter'', JArr [JStr ''a''])])])
   \<and> fst (loadServerConfig overlay_env (initial overlay_files None) ''/srv/tree-gateway'')
       = Inr (JObj [(''gateway'', JObj [(''filter'', JArr [JStr ''a'', JStr ''y''])]),
                    (''database'', JObj [])])
   \<and> get_path [''gateway'', ''filter'']
         (JObj [(''gateway'', JObj [(''filter'', JArr [JStr ''a''])])])
       \<noteq> get_path [''gateway'', ''filter'']
           (JObj [(''gateway'', JObj [(''filter'', JArr [JStr ''a'', JStr ''y''])]),
                  (''database'', JObj [])])"
  by code_simp

subsection \<open>The Store Overlay\<close>

text \<open>
  C3, as the code has it. With a stored gateway value, the Store Overlay reads the store
  once and writes nothing, and puts the stored value merged over the local one in the
  configuration. A local value that is absent leaves the stored one as it is. The merge
  is the one of the Environment Overlay: whenever the two values are not both
  containers, the stored one wins; a key that only one side defines keeps that side's
  value; on a key both define, the stored value wins unless both are containers, which
  are merged by the same rule; two sequences are merged index by index, as long as the
  longer one, an index both have by the same rule, an index only one has with that
  side's element. A merged value with no protocol never succeeds: the run fails with
  the validator's error when the validator rejects the merged value, and with
  MissingProtocolError otherwise.
\<close>

theorem store_overlay_merge:
  assumes "storeOnline env" and "stored s = Some S" and "truthy S" and "config s = Some cfg"
  shows
   "(let merged = defaultsDeep S (get_prop cfg ''gateway'');
         result = getConfigFromDB env s
     in fst result =
          (case validateGatewayConfig env merged of
             Inl e \<Rightarrow> Inl e
           | Inr valid \<Rightarrow>
               if truthy_opt (get_prop merged ''protocol'') then Inr ()
               else Inl MissingProtocolError)
        \<and> (get_prop merged ''protocol'' = None \<longrightarrow> fst result \<noteq> Inr ())
        \<and> config (snd result) = Some (set_prop ''gateway'' merged cfg)
        \<and> stored (snd result) = stored s
        \<and> storeCalls (snd result) = storeCalls s @ [Get]
        \<and> (\<not> truthy_opt (get_prop cfg ''gateway'') \<longrightarrow> merged = S)
        \<and> (\<forall>ss ls k. S = JObj ss \<and> get_prop cfg ''gateway'' = Some (JObj ls)
                \<and> distinct (map fst ls) \<longrightarrow>
              get_prop merged k =
                (case map_of ss k of
                   None \<Rightarrow> map_of ls k
                 | Some x \<Rightarrow>
                     Some (case map_of ls k of
                             None \<Rightarrow> x
                           | Some y \<Rightarrow>
                               if isObject x \<and> isObject y then customDefaultsMerge x y else x))))
    \<and> (\<forall>x y. \<not> (isObject x \<and> isObject y) \<longrightarrow> customDefaultsMerge x y = x)
    \<and> (\<forall>ss ls k. distinct (map fst ls) \<longrightarrow>
          get_prop (customDefaultsMerge (JObj ss) (JObj ls)) k =
            (case map_of ss k of
               None \<Rightarrow> map_of ls k
             | Some x \<Rightarrow>
                 Some (case map_of ls k of
                         None \<Rightarrow> x
                       | Some y \<Rightarrow> if isObject x \<and> isObject y then customDefaultsMerge x y else x)))
    \<and> (\<forall>xs ys. \<exists>zs. customDefaultsMerge (JArr xs) (JArr ys) = JArr zs
          \<and> length zs = max (length xs) (length ys)
          \<and> (\<forall>i. i < length xs \<and> i < length ys \<longrightarrow>
                zs ! i = (if isObject (xs ! i) \<and> isObject (ys ! i)
                          then customDefaultsMerge (xs ! i) (ys ! i) else xs ! i))
          \<and> (\<forall>i. i < length xs \<and> length ys \<le> i \<longrightarrow> zs ! i = xs ! i)
          \<and> (\<forall>i. length xs \<le> i \<and> i < length ys \<longrightarrow> zs ! i = ys ! i))"
proof -
  have run: "getConfigFromDB env s =
      (let merged = defaultsDeep S (get_prop cfg ''gateway'');
           s3 = suspend ((suspend (s\<lparr>storeCalls := storeCalls s @ [Get]\<rparr>))
                           \<lparr>config := Some (set_prop ''gateway'' merged cfg)\<rparr>)
       in (case validateGatewayConfig env merged of
             Inl e \<Rightarrow> Inl e
           | Inr valid \<Rightarrow>
               if truthy_opt (get_prop merged ''protocol'') then Inr ()
               else Inl MissingProtocolError, s3))"
    using assms
    by (simp add: getConfigFromDB_def gatewayService_get_def Let_def truthy_opt_def suspend_def
        split: sum.splits)
  have keys: "get_prop (customDefaultsMerge (JObj ss) (JObj ls)) k =
            (case map_of ss k of
               None \<Rightarrow> map_of ls k
             | Some x \<Rightarrow>
                 Some (case map_of ls k of
                         None \<Rightarrow> x
                       | Some y \<Rightarrow> if isObject x \<and> isObject y then customDefaultsMerge x y else x))"
    if "distinct (map fst ls)" for ss ls k
    using that
    by (auto simp: merge_fields_lookup customDefaultsMerge_scalar split: option.splits)
  have first: "let merged = defaultsDeep S (get_prop cfg ''gateway'');
         result = getConfigFromDB env s
     in fst result =
          (case validateGatewayConfig env merged of
             Inl e \<Rightarrow> Inl e
           | Inr valid \<Rightarrow>
               if truthy_opt (get_prop merged ''protocol'') then Inr ()
               else Inl MissingProtocolError)
        \<and> (get_prop merged ''protocol'' = None \<longrightarrow> fst result \<noteq> Inr ())
        \<and> config (snd result) = Some (set_prop ''gateway'' merged cfg)
        \<and> stored (snd result) = stored s
        \<and> storeCalls (snd result) = storeCalls s @ [Get]
        \<and> (\<not> truthy_opt (get_prop cfg ''gateway'') \<longrightarrow> merged = S)
        \<and> (\<forall>ss ls k. S = JObj ss \<and> get_prop cfg ''gateway'' = Some (JObj ls)
                \<and> distinct (map fst ls) \<longrightarrow>
              get_prop merged k =
                (case map_of ss k of
                   None \<Rightarrow> map_of ls k
                 | Some x \<Rightarrow>
                     Some (case map_of ls k of
                             None \<Rightarrow> x
                           | Some y \<Rightarrow>
                               if isObject x \<and> isObject y then customDefaultsMerge x y else x)))"
    unfolding run Let_def
    using keys
    by (auto simp: suspend_def defaultsDeep_falsy defaultsDeep_def
        truthy_opt_def split: sum.splits option.splits)
  have seqs: "\<exists>zs. customDefaultsMerge (JArr xs) (JArr ys) = JArr zs
          \<and> length zs = max (length xs) (length ys)
          \<and> (\<forall>i. i < length xs \<and> i < length ys \<longrightarrow>
                zs ! i = (if isObject (xs ! i) \<and> isObject (ys ! i)
                          then customDefaultsMerge (xs ! i) (ys ! i) else xs ! i))
          \<and> (\<forall>i. i < length xs \<and> length ys \<le> i \<longrightarrow> zs ! i = xs ! i)
          \<and> (\<forall>i. length xs \<le> i \<and> i < length ys \<longrightarrow> zs ! i = ys ! i)" for xs ys
    by (intro exI [of _ "merge_elems xs ys"])
       (auto simp: length_merge_elems nth_merge_elems customDefaultsMerge_scalar)
  show ?thesis
    using first keys seqs customDefaultsMerge_scalar by blast
qed

lemma protocolless_merged:
  "defaultsDeep (JObj [(''admin'', JObj [])]) (Some (JObj [(''filter'', JArr [JStr ''x''])]))
   = JObj [(''admin'', JObj []), (''filter'', JArr [JStr ''x''])]"
  by code_simp

lemma conflict_merged:
  "defaultsDeep (JObj [(''protocol'', JObj [(''http'', JObj [(''listenPort'', JNum 8000)])])])
     (Some (JObj [(''protocol'', JObj [(''http'', JObj [(''listenPort'', JNum 9999)])]),
                  (''filter'', JArr [JStr ''x''])]))
   = JObj [(''protocol'', JObj [(''http'', JObj [(''listenPort'', JNum 8000)])]),
           (''filter'', JArr [JStr ''x''])]"
  by code_simp

text \<open>
  The store has the port 8000 where the local file has 9999: the merged gateway has the
  stored 8000, and the filter that only the local file lists. A store and a local file
  that both lack a protocol fail with MissingProtocolError.
\<close>

theorem store_overlay_merge_witness:
  "storeOnline example_env
   \<and> stored conflict_state
       = Some (JObj [(''protocol'', JObj [(''http'', JObj [(''listenPort'', JNum 8000)])])])
   \<and> config conflict_state
       = Some (JObj [(''gateway'',
                      JObj [(''protocol'', JObj [(''http'', JObj [(''listenPort'', JNum 9999)])]),
                            (''filter'', JArr [JStr ''x''])])])
   \<and> fst (getConfigFromDB example_env conflict_state) = Inr ()
   \<and> config (snd (getConfigFromDB example_env conflict_state))
       = Some (JObj [(''gateway'',
                      JObj [(''protocol'', JObj [(''http'', JObj [(''listenPort'', JNum 8000)])]),
                            (''filter'', JArr [JStr ''x''])])])
   \<and> customDefaultsMerge (JNum 8000) (JNum 9999) = JNum 8000
   \<and> stored protocolless_state = Some (JObj [(''admin'', JObj [])])
   \<and> config protocolless_state = Some (JObj [(''gateway'', JObj [(''filter'', JArr [JStr ''x''])])])
   \<and> get_prop (JObj [(''admin'', JObj []), (''filter'', JArr [JStr ''x''])]) ''protocol'' = None
   \<and> fst (getConfigFromDB example_env protocolless_state) = Inl MissingProtocolError
   \<and> config (snd (getConfigFromDB example_env protocolless_state))
       = Some (JObj [(''gateway'', JObj [(''admin'', JObj []), (''filter'', JArr [JStr ''x''])])])"
proof -
  have online: "storeOnline example_env"
    by (simp add: example_env_def)
  have c: "stored conflict_state
       = Some (JObj [(''protocol'', JObj [(''http'', JObj [(''listenPort'', JNum 8000)])])])"
    "truthy (JObj [(''protocol'', JObj [(''http'', JObj [(''listenPort'', JNum 8000)])])])"
    "config conflict_state
       = Some (JObj [(''gateway'',
                      JObj [(''protocol'', JObj [(''http'', JObj [(''listenPort'', JNum 9999)])]),
                            (''filter'', JArr [JStr ''x''])])])"
    by (simp_all add: conflict_state_def initial_def)
  have h: "stored protocolless_state = Some (JObj [(''admin'', JObj [])])"
    "truthy (JObj [(''admin'', JObj [])])"
    "config protocolless_state = Some (JObj [(''gateway'', JObj [(''filter'', JArr [JStr ''x''])])])"
    by (simp_all add: protocolless_state_def initial_def)
  have v: "validateGatewayConfig example_env v = Inr v" for v
    by (simp add: example_env_def)
  from store_overlay_merge [OF online c]
  have conflict: "fst (getConfigFromDB example_env conflict_state) = Inr ()
     \<and> config (snd (getConfigFromDB example_env conflict_state))
         = Some (JObj [(''gateway'',
                        JObj [(''protocol'', JObj [(''http'', JObj [(''listenPort'', JNum 8000)])]),
                              (''filter'', JArr [JStr ''x''])])])
     \<and> customDefaultsMerge (JNum 8000) (JNum 9999) = JNum 8000"
    by (simp add: Let_def conflict_merged v truthy_opt_def)
  from store_overlay_merge [OF online h]
  have missing: "fst (getConfigFromDB example_env protocolless_state) = Inl MissingProtocolError
     \<and> config (snd (getConfigFromDB example_env protocolless_state))
         = Some (JObj [(''gateway'', JObj [(''admin'', JObj []), (''filter'', JArr [JStr ''x''])])])"
    by (simp add: Let_def protocolless_merged v truthy_opt_def)
  show ?thesis
    using online c(1,3) h(1,3) conflict missing by simp
qed

text \<open>
  The store lists the one filter \<^verbatim>\<open>a\<close>, the local file \<^verbatim>\<open>x\<close> and \<^verbatim>\<open>y\<close>: the merged
  gateway lists \<^verbatim>\<open>a\<close> and \<^verbatim>\<open>y\<close>, which is not the stored value of that key.
\<close>

theorem store_sequence_counterexample:
  "stored merge_state
     = Some (JObj [(''protocol'', JObj [(''http'', JObj [(''listenPort'', JNum 8000)])]),
                   (''filter'', JArr [JStr ''a''])])
   \<and> fst (getConfigFromDB example_env merge_state) = Inr ()
   \<and> config (snd (getConfigFromDB example_env merge_state))
       = Some (JObj [(''rootPath'', JStr ''/srv''),
                     (''gateway'',
                      JObj [(''protocol'', JObj [(''http'', JObj [(''listenPort'', JNum 8000)])]),
                            (''filter'', JArr [JStr ''a'', JStr ''y''])])])
   \<and> JArr [JStr ''a''] \<noteq> JArr [JStr ''a'', JStr ''y'']"
  by code_simp

text \<open>
  C4. With a reachable store that holds no gateway value: when the local configuration
  has no gateway value either (and the packaged template has its
  \<^verbatim>\<open>admin.userService\<close> object), the Store Overlay takes the template with the next
  random secret as \<^verbatim>\<open>jwtSecret\<close>, puts it in the configuration, saves it to the store and
  registers a gateway version; when the local configuration has a gateway value, the
  configuration and the store stay as they are and the store is only read.
\<close>

theorem store_overlay_seed:
  assumes "storeOnline env" and "\<not> truthy_opt (stored s)" and "config s = Some cfg"
  shows
   "(\<forall>us. \<not> truthy_opt (get_prop cfg ''gateway'')
          \<and> get_path [''admin'', ''userService''] (gatewayTemplate env) = Some (JObj us) \<longrightarrow>
       (let secret = JStr (uuid env (uuids s));
            synthesized = modify_path [''admin'', ''userService'']
                            (\<lambda>old. JObj (AList.update ''jwtSecret'' secret us)) (gatewayTemplate env);
            result = getConfigFromDB env s
        in fst result = Inr ()
           \<and> config (snd result) = Some (set_prop ''gateway'' synthesized cfg)
           \<and> stored (snd result) = Some synthesized
           \<and> storeCalls (snd result) = storeCalls s @ [Get, Save synthesized, RegisterGatewayVersion]
           \<and> uuids (snd result) = Suc (uuids s)
           \<and> get_path [''admin'', ''userService'', ''jwtSecret''] synthesized = Some secret))
    \<and> (truthy_opt (get_prop cfg ''gateway'') \<longrightarrow>
         (let result = getConfigFromDB env s
          in fst result = Inr ()
             \<and> config (snd result) = Some cfg
             \<and> stored (snd result) = stored s
             \<and> storeCalls (snd result) = storeCalls s @ [Get]))"
proof (intro conjI allI impI)
  fix us
  assume a: "\<not> truthy_opt (get_prop cfg ''gateway'')
          \<and> get_path [''admin'', ''userService''] (gatewayTemplate env) = Some (JObj us)"
  let ?secret = "JStr (uuid env (uuids s))"
  let ?syn = "modify_path [''admin'', ''userService'']
                (\<lambda>old. JObj (AList.update ''jwtSecret'' ?secret us)) (gatewayTemplate env)"
  have tmpl: "loadDefaultGatewayConfig env t = (Inr (modify_path [''admin'', ''userService'']
                (\<lambda>old. JObj (AList.update ''jwtSecret'' (JStr (uuid env (uuids t))) us))
                (gatewayTemplate env)), t\<lparr>uuids := Suc (uuids t)\<rparr>)" for t
    using a unfolding loadDefaultGatewayConfig_def Let_def
    by (cases "gatewayTemplate env") (auto split: option.splits json.splits)
  have secret: "get_path [''admin'', ''userService'', ''jwtSecret''] ?syn = Some ?secret"
    using a get_modify_below [of "[''admin'', ''userService'']" "[''jwtSecret'']"
                 "\<lambda>old. JObj (AList.update ''jwtSecret'' ?secret us)" "gatewayTemplate env"]
    by (simp add: update_conv' del: get_path.simps modify_path.simps)
       (simp add: update_conv')
  show "let secret = JStr (uuid env (uuids s));
            synthesized = modify_path [''admin'', ''userService'']
                            (\<lambda>old. JObj (AList.update ''jwtSecret'' secret us)) (gatewayTemplate env);
            result = getConfigFromDB env s
        in fst result = Inr ()
           \<and> config (snd result) = Some (set_prop ''gateway'' synthesized cfg)
           \<and> stored (snd result) = Some synthesized
           \<and> storeCalls (snd result) = storeCalls s @ [Get, Save synthesized, RegisterGatewayVersion]
           \<and> uuids (snd result) = Suc (uuids s)
           \<and> get_path [''admin'', ''userService'', ''jwtSecret''] synthesized = Some secret"
    unfolding Let_def
    using assms a secret
    by (simp add: getConfigFromDB_def gatewayService_get_def gatewayService_save_def
        gatewayService_registerGatewayVersion_def Let_def suspend_def tmpl
        del: get_path.simps modify_path.simps)
next
  assume "truthy_opt (get_prop cfg ''gateway'')"
  then show "let result = getConfigFromDB env s
          in fst result = Inr ()
             \<and> config (snd result) = Some cfg
             \<and> stored (snd result) = stored s
             \<and> storeCalls (snd result) = storeCalls s @ [Get]"
    using assms
    by (simp add: getConfigFromDB_def gatewayService_get_def Let_def suspend_def)
qed


lemma synthesized_example:
  "modify_path [''admin'', ''userService'']
     (\<lambda>old. JObj [(''jwtSecret'', JStr (uuid example_env 0))])
     (gatewayTemplate example_env)
   = JObj [(''protocol'', JObj [(''http'', JObj [(''listenPort'', JNum 8000)])]),
           (''admin'', JObj [(''userService'', JObj [(''jwtSecret'', JStr ''secret-0'')])])]"
  by code_simp

theorem store_overlay_seed_witness:
  "storeOnline example_env
   \<and> \<not> truthy_opt (stored unseeded_state)
   \<and> config unseeded_state = Some (JObj [(''rootPath'', JStr ''/srv'')])
   \<and> \<not> truthy_opt (get_prop (JObj [(''rootPath'', JStr ''/srv'')]) ''gateway'')
   \<and> get_path [''admin'', ''userService''] (gatewayTemplate example_env) = Some (JObj [])
   \<and> fst (getConfigFromDB example_env unseeded_state) = Inr ()
   \<and> stored (snd (getConfigFromDB example_env unseeded_state))
       = Some (JObj [(''protocol'', JObj [(''http'', JObj [(''listenPort'', JNum 8000)])]),
                     (''admin'', JObj [(''userService'', JObj [(''jwtSecret'', JStr ''secret-0'')])])])
   \<and> storeCalls (snd (getConfigFromDB example_env unseeded_state))
       = [Get,
          Save (JObj [(''protocol'', JObj [(''http'', JObj [(''listenPort'', JNum 8000)])]),
                      (''admin'', JObj [(''userService'', JObj [(''jwtSecret'', JStr ''secret-0'')])])]),
          RegisterGatewayVersion]
   \<and> truthy_opt (get_prop (JObj [(''gateway'', JObj [(''protocol'', JObj [(''http'', JObj [])])])])
                   ''gateway'')
   \<and> storeCalls (snd (getConfigFromDB example_env local_gateway_state)) = [Get]
   \<and> config (snd (getConfigFromDB example_env local_gateway_state)) = config local_gateway_state"
proof -
  have h: "storeOnline example_env" "\<not> truthy_opt (stored unseeded_state)"
    "config unseeded_state = Some (JObj [(''rootPath'', JStr ''/srv'')])"
    by (simp_all add: example_env_def unseeded_state_def initial_def truthy_opt_def)
  have g: "\<not> truthy_opt (stored local_gateway_state)"
    "config local_gateway_state
       = Some (JObj [(''gateway'', JObj [(''protocol'', JObj [(''http'', JObj [])])])])"
    by (simp_all add: local_gateway_state_def initial_def truthy_opt_def)
  have t: "get_path [''admin'', ''userService''] (gatewayTemplate example_env) = Some (JObj [])"
    by (simp add: example_env_def)
  have z: "uuids unseeded_state = 0" "storeCalls unseeded_state = []"
    "storeCalls local_gateway_state = []"
    by (simp_all add: unseeded_state_def local_gateway_state_def initial_def)
  have a: "\<not> truthy_opt (get_prop (JObj [(''rootPath'', JStr ''/srv'')]) ''gateway'')"
    "truthy_opt (get_prop (JObj [(''gateway'', JObj [(''protocol'', JObj [(''http'', JObj [])])])])
                   ''gateway'')"
    by (simp_all add: truthy_opt_def)
  from store_overlay_seed [OF h] a(1) t
  have first: "fst (getConfigFromDB example_env unseeded_state) = Inr ()
     \<and> stored (snd (getConfigFromDB example_env unseeded_state))
         = Some (JObj [(''protocol'', JObj [(''http'', JObj [(''listenPort'', JNum 8000)])]),
                       (''admin'', JObj [(''userService'', JObj [(''jwtSecret'', JStr ''secret-0'')])])])
     \<and> storeCalls (snd (getConfigFromDB example_env unseeded_state))
         = [Get,
            Save (JObj [(''protocol'', JObj [(''http'', JObj [(''listenPort'', JNum 8000)])]),
                        (''admin'', JObj [(''userService'', JObj [(''jwtSecret'', JStr ''secret-0'')])])]),
            RegisterGatewayVersion]"
    by (simp add: Let_def z synthesized_example del: get_path.simps modify_path.simps)
  from store_overlay_seed [OF h(1) g] a(2)
  have second: "storeCalls (snd (getConfigFromDB example_env local_gateway_state)) = [Get]
     \<and> config (snd (getConfigFromDB example_env local_gateway_state)) = config local_gateway_state"
    by (simp add: Let_def z g)
  show ?thesis
    using h a t first second by blast
qed


subsection \<open>The Bootstrap Provider\<close>

lemma absent_loadConfigObject: "absent_at s base \<Longrightarrow> loadConfigObject s base = Inr JNull"
  by (simp add: absent_at_def loadConfigObject_def)

lemma no_overlay_base:
  "absent_at s base \<Longrightarrow> no_overlay env s base \<Longrightarrow>
     loadServerConfig env s base
       = (case loadDefaultServerConfig env s of (r, s1) \<Rightarrow> (r, suspend s1))"
  by (auto simp: loadServerConfig_def no_overlay_def absent_loadConfigObject split: option.splits)

lemma createRedisConfiguration_object:
  "createRedisConfiguration t a = Inr cfg \<Longrightarrow> truthy cfg"
  by (cases t) (auto simp: createRedisConfiguration_def Let_def split: sum.splits)

text \<open>
  C5, as the code has it. With no configuration file at the base path and no overlay
  file, the Bootstrap Provider runs (one prompt) and requests the write of the generated
  configuration to \<^verbatim>\<open>tree-gateway.yaml\<close> in the working directory, whatever the base
  path is. A resolution that finds that file, with the base path the working directory's
  \<^verbatim>\<open>tree-gateway\<close>, returns the generated configuration without a prompt; a resolution
  that still finds no file at the base path runs the Bootstrap Provider again.
\<close>

theorem bootstrap_writes_default_file:
  assumes "absent_at s base" and "no_overlay env s base"
    and "prompt env = Inr a" and "createRedisConfiguration (serverTemplate env) a = Inr cfg"
  shows
   "(let result = loadServerConfig env s base;
         target = path_join [cwd env, ''tree-gateway.yaml'']
     in fst result = Inr cfg
        \<and> prompts (snd result) = Suc (prompts s)
        \<and> writeRequests (snd result) = writeRequests s @ [(target, Parsed cfg)]
        \<and> (\<forall>s2. base @ ''.yaml'' = target \<and> files s2 target = Some (Parsed cfg)
                \<and> files s2 (base @ ''.yml'') = None \<and> no_overlay env s2 base \<longrightarrow>
              loadServerConfig env s2 base = (Inr cfg, s2))
        \<and> (\<forall>s2. absent_at s2 base \<and> no_overlay env s2 base \<longrightarrow>
              fst (loadServerConfig env s2 base) = Inr cfg
              \<and> prompts (snd (loadServerConfig env s2 base)) = Suc (prompts s2)
              \<and> writeRequests (snd (loadServerConfig env s2 base))
                  = writeRequests s2 @ [(target, Parsed cfg)]))"
proof -
  let ?target = "path_join [cwd env, ''tree-gateway.yaml'']"
  have boot: "loadDefaultServerConfig env t
      = (Inr cfg, suspend ((suspend (t\<lparr>prompts := Suc (prompts t)\<rparr>))
                             \<lparr>writeRequests := writeRequests t @ [(?target, Parsed cfg)]\<rparr>))" for t
    using assms(3,4) by (simp add: loadDefaultServerConfig_def Let_def suspend_def)
  have again: "fst (loadServerConfig env t base) = Inr cfg
      \<and> prompts (snd (loadServerConfig env t base)) = Suc (prompts t)
      \<and> writeRequests (snd (loadServerConfig env t base))
          = writeRequests t @ [(?target, Parsed cfg)]"
    if "absent_at t base" "no_overlay env t base" for t
    using no_overlay_base [OF that] boot [of t] by (simp add: suspend_def)
  have found: "loadServerConfig env s2 base = (Inr cfg, s2)"
    if eq: "base @ ''.yaml'' = ?target" and there: "files s2 ?target = Some (Parsed cfg)"
      and yml: "files s2 (base @ ''.yml'') = None" and ov: "no_overlay env s2 base" for s2
  proof -
    have yaml: "files s2 (base @ ''.yaml'') = Some (Parsed cfg)"
      using eq there by simp
    have b: "loadConfigObject s2 base = Inr cfg"
      using yml yaml by (simp add: loadConfigObject_def readParsed_def)
    have o: "loadConfigObject s2 (base @ ''-'' @ name) = Inr JNull"
      if "NODE_ENV env = Some name" "name \<noteq> []" for name
      using ov that by (simp add: no_overlay_def absent_loadConfigObject)
    show ?thesis
      using b o createRedisConfiguration_object [OF assms(4)]
      by (auto simp: loadServerConfig_def split: option.splits)
  qed
  show ?thesis
    unfolding Let_def using again [OF assms(1,2)] again found by blast
qed

lemma bootstrap_config:
  "createRedisConfiguration (serverTemplate example_env)
     \<lparr>connectionType = ''standalone'', host = ''localhost'', port = ''6379'', db = [],
        password = []\<rparr>
   = Inr (JObj [(''database'',
                 JObj [(''redis'',
                        JObj [(''standalone'',
                               JObj [(''host'', JStr ''localhost''), (''port'', JNum 6379)])])])])"
  by code_simp

lemma generated_present:
  "files (initial generated_files None) (path_join [cwd example_env, ''tree-gateway.yaml''])
     = Some (Parsed (JObj [(''database'',
                            JObj [(''redis'',
                                   JObj [(''standalone'',
                                          JObj [(''host'', JStr ''localhost''),
                                                (''port'', JNum 6379)])])])]))"
  by code_simp

theorem bootstrap_writes_default_file_witness:
  "absent_at (initial Map.empty None) ''/srv/tree-gateway''
   \<and> no_overlay example_env (initial Map.empty None) ''/srv/tree-gateway''
   \<and> ''/srv/tree-gateway'' @ ''.yaml'' = path_join [cwd example_env, ''tree-gateway.yaml'']
   \<and> fst (loadServerConfig example_env (initial Map.empty None) ''/srv/tree-gateway'')
       = Inr (JObj [(''database'',
                     JObj [(''redis'',
                            JObj [(''standalone'',
                                   JObj [(''host'', JStr ''localhost''), (''port'', JNum 6379)])])])])
   \<and> prompts (snd (loadServerConfig example_env (initial Map.empty None) ''/srv/tree-gateway'')) = 1
   \<and> writeRequests (snd (loadServerConfig example_env (initial Map.empty None) ''/srv/tree-gateway''))
       = [(path_join [cwd example_env, ''tree-gateway.yaml''],
           Parsed (JObj [(''database'',
                          JObj [(''redis'',
                                 JObj [(''standalone'',
                                        JObj [(''host'', JStr ''localhost''),
                                              (''port'', JNum 6379)])])])]))]
   \<and> files (initial generated_files None) (''/srv/tree-gateway'' @ ''.yml'') = None
   \<and> no_overlay example_env (initial generated_files None) ''/srv/tree-gateway''
   \<and> loadServerConfig example_env (initial generated_files None) ''/srv/tree-gateway''
       = (Inr (JObj [(''database'',
                      JObj [(''redis'',
                             JObj [(''standalone'',
                                    JObj [(''host'', JStr ''localhost''), (''port'', JNum 6379)])])])]),
          initial generated_files None)"
proof -
  have h: "absent_at (initial Map.empty None) ''/srv/tree-gateway''"
    "no_overlay example_env (initial Map.empty None) ''/srv/tree-gateway''"
    "prompt example_env = Inr \<lparr>connectionType = ''standalone'', host = ''localhost'',
                                 port = ''6379'', db = [], password = []\<rparr>"
    by (simp_all add: absent_at_def no_overlay_def initial_def example_env_def)
  have t: "''/srv/tree-gateway'' @ ''.yaml'' = path_join [cwd example_env, ''tree-gateway.yaml'']"
    by code_simp
  have p: "prompts (initial Map.empty None) = 0" "writeRequests (initial Map.empty None) = []"
    by (simp_all add: initial_def)
  have g: "files (initial generated_files None) (''/srv/tree-gateway'' @ ''.yml'') = None"
    "no_overlay example_env (initial generated_files None) ''/srv/tree-gateway''"
    by (simp_all add: initial_def generated_files_def no_overlay_def example_env_def)
  from bootstrap_writes_default_file [OF h bootstrap_config]
  have first: "fst (loadServerConfig example_env (initial Map.empty None) ''/srv/tree-gateway'')
       = Inr (JObj [(''database'',
                     JObj [(''redis'',
                            JObj [(''standalone'',
                                   JObj [(''host'', JStr ''localhost''), (''port'', JNum 6379)])])])])
   \<and> prompts (snd (loadServerConfig example_env (initial Map.empty None) ''/srv/tree-gateway'')) = 1
   \<and> writeRequests (snd (loadServerConfig example_env (initial Map.empty None) ''/srv/tree-gateway''))
       = [(path_join [cwd example_env, ''tree-gateway.yaml''],
           Parsed (JObj [(''database'',
                          JObj [(''redis'',
                                 JObj [(''standalone'',
                                        JObj [(''host'', JStr ''localhost''),
                                              (''port'', JNum 6379)])])])]))]"
    by (simp add: Let_def p)
  from bootstrap_writes_default_file [OF h bootstrap_config]
  have "\<forall>s2. ''/srv/tree-gateway'' @ ''.yaml'' = path_join [cwd example_env, ''tree-gateway.yaml'']
            \<and> files s2 (path_join [cwd example_env, ''tree-gateway.yaml''])
                = Some (Parsed (JObj [(''database'',
                            JObj [(''redis'',
                                   JObj [(''standalone'',
                                          JObj [(''host'', JStr ''localhost''),
                                                (''port'', JNum 6379)])])])]))
            \<and> files s2 (''/srv/tree-gateway'' @ ''.yml'') = None
            \<and> no_overlay example_env s2 ''/srv/tree-gateway'' \<longrightarrow>
          loadServerConfig example_env s2 ''/srv/tree-gateway''
            = (Inr (JObj [(''database'',
                      JObj [(''redis'',
                             JObj [(''standalone'',
                                    JObj [(''host'', JStr ''localhost''), (''port'', JNum 6379)])])])]),
               s2)"
    unfolding Let_def by blast
  then have second: "loadServerConfig example_env (initial generated_files None) ''/srv/tree-gateway''
       = (Inr (JObj [(''database'',
                      JObj [(''redis'',
                             JObj [(''standalone'',
                                    JObj [(''host'', JStr ''localhost''), (''port'', JNum 6379)])])])]),
          initial generated_files None)"
    using t generated_present g by blast
  show ?thesis
    using h(1,2) t first g second by blast
qed

text \<open>
  With the base path \<^verbatim>\<open>./app-config\<close> and an empty directory \<^verbatim>\<open>/srv\<close>: the load
  succeeds after one prompt, the one write it requests is that of
  \<^verbatim>\<open>/srv/tree-gateway.yaml\<close> and none of an \<^verbatim>\<open>app-config\<close> file, and a new controller
  over a directory that holds the generated file prompts again.
\<close>

theorem bootstrap_path_counterexample:
  "(let s1 = load custom_env (initial Map.empty None)
    in isLoaded s1
       \<and> prompts s1 = 1
       \<and> map fst (writeRequests s1) = [''/srv/tree-gateway.yaml'']
       \<and> ''/srv/tree-gateway.yaml''
            \<notin> set [''/srv/app-config.yml'', ''/srv/app-config.yaml'', ''/srv/app-config.json'']
       \<and> files (initial generated_files (stored s1)) ''/srv/tree-gateway.yaml'' \<noteq> None
       \<and> prompts (load custom_env (initial generated_files (stored s1))) = 1)"
  by code_simp


subsection \<open>The order of the stages\<close>

text \<open>
  C1, as the code has it. Every successful run of the pipeline, in \<^verbatim>\<open>load\<close> and in
  \<^verbatim>\<open>reload\<close> alike, is: the Format Loader with the Environment Overlay (and the
  Bootstrap Provider), validation, the Path Defaulter for \<^verbatim>\<open>rootPath\<close> and
  \<^verbatim>\<open>middlewarePath\<close>, the Variable Interpolator, the Array Normalizer, the Store
  Overlay, and last the resolution of the TLS private key and certificate paths, each on
  the output of the one before.
\<close>

theorem pipeline_order:
  "(loadGatewayConfig env s serverConfigFile = (Inr (), s') \<longrightarrow>
      (\<exists>cfg s1 sc pd s3.
          loadServerConfig env s (configFileName_of env serverConfigFile) = (Inr cfg, s1)
        \<and> validateServerConfig env cfg = Inr sc
        \<and> pathDefaulter (configFileName_of env serverConfigFile) sc = Inr pd
        \<and> loadDatabaseConfig env
              ((suspend (suspend s1))
                 \<lparr>config := Some (castArrays (deepMapValues (checkEnvVariable env) pd))\<rparr>)
            = (Inr (), s3)
        \<and> resolveTlsPaths (suspend s3) = (Inr (), s')))
   \<and> (\<not> isLoaded s \<and> isLoaded (load env s) \<longrightarrow>
        (\<exists>s1. loadGatewayConfig env s (configFile env) = (Inr (), s1)))
   \<and> (fst (reload env s) = Inr () \<longrightarrow>
        (\<exists>s1. loadGatewayConfig env (s\<lparr>config := None\<rparr>) (configFile env) = (Inr (), s1)))"
proof (intro conjI impI)
  assume "loadGatewayConfig env s serverConfigFile = (Inr (), s')"
  then show "\<exists>cfg s1 sc pd s3.
          loadServerConfig env s (configFileName_of env serverConfigFile) = (Inr cfg, s1)
        \<and> validateServerConfig env cfg = Inr sc
        \<and> pathDefaulter (configFileName_of env serverConfigFile) sc = Inr pd
        \<and> loadDatabaseConfig env
              ((suspend (suspend s1))
                 \<lparr>config := Some (castArrays (deepMapValues (checkEnvVariable env) pd))\<rparr>)
            = (Inr (), s3)
        \<and> resolveTlsPaths (suspend s3) = (Inr (), s')"
    unfolding loadGatewayConfig_def configFileName_of_def Let_def
    by (auto split: prod.splits sum.splits)
next
  assume "\<not> isLoaded s \<and> isLoaded (load env s)"
  then show "\<exists>s1. loadGatewayConfig env s (configFile env) = (Inr (), s1)"
    by (auto simp: load_def emit_def suspend_def split: prod.splits sum.splits)
next
  assume "fst (reload env s) = Inr ()"
  then show "\<exists>s1. loadGatewayConfig env (s\<lparr>config := None\<rparr>) (configFile env) = (Inr (), s1)"
    by (auto simp: reload_def Let_def split: prod.splits sum.splits)
qed

lemma tls_run:
  "fst (loadGatewayConfig example_env tls_state (configFile example_env)) = Inr ()"
  by code_simp

theorem pipeline_order_witness:
  "fst (loadGatewayConfig example_env tls_state (configFile example_env)) = Inr ()
   \<and> (\<exists>cfg s1 sc pd s3.
          loadServerConfig example_env tls_state
            (configFileName_of example_env (configFile example_env)) = (Inr cfg, s1)
        \<and> validateServerConfig example_env cfg = Inr sc
        \<and> pathDefaulter (configFileName_of example_env (configFile example_env)) sc = Inr pd
        \<and> loadDatabaseConfig example_env
              ((suspend (suspend s1))
                 \<lparr>config := Some (castArrays (deepMapValues (checkEnvVariable example_env) pd))\<rparr>)
            = (Inr (), s3)
        \<and> resolveTlsPaths (suspend s3)
            = (Inr (), snd (loadGatewayConfig example_env tls_state (configFile example_env))))"
proof -
  have run: "loadGatewayConfig example_env tls_state (configFile example_env)
               = (Inr (), snd (loadGatewayConfig example_env tls_state (configFile example_env)))"
    using tls_run by (simp add: prod_eq_iff)
  show ?thesis
    using pipeline_order [of example_env tls_state "configFile example_env"
            "snd (loadGatewayConfig example_env tls_state (configFile example_env))"]
          run tls_run
    by blast
qed

text \<open>
  The store names the private key \<^verbatim>\<open>./key.pem\<close>. The code resolves it to
  \<^verbatim>\<open>/srv/key.pem\<close>, because the TLS paths are resolved after the Store Overlay; in the
  specified order they would be resolved before it and the stored path would stay
  relative.
\<close>

theorem pipeline_order_counterexample:
  "fst (loadGatewayConfig example_env tls_state (configFile example_env)) = Inr ()
   \<and> fst (specified_order example_env tls_state (configFile example_env)) = Inr ()
   \<and> config (snd (loadGatewayConfig example_env tls_state (configFile example_env)))
       = Some (JObj [(''database'', JObj []), (''rootPath'', JStr ''/srv''),
                     (''middlewarePath'', JStr ''/srv/middleware''),
                     (''gateway'',
                      JObj [(''protocol'',
                             JObj [(''https'',
                                    JObj [(''privateKey'', JStr ''/srv/key.pem''),
                                          (''certificate'', JStr ''/srv/cert.pem'')])])])])
   \<and> config (snd (specified_order example_env tls_state (configFile example_env)))
       = Some (JObj [(''database'', JObj []), (''rootPath'', JStr ''/srv''),
                     (''middlewarePath'', JStr ''/srv/middleware''),
                     (''gateway'',
                      JObj [(''protocol'',
                             JObj [(''https'',
                                    JObj [(''privateKey'', JStr ''./key.pem''),
                                          (''certificate'', JStr ''./cert.pem'')])])])])"
  by code_simp

subsection \<open>Reload\<close>

text \<open>
  C2, as the code has it. Every \<^verbatim>\<open>reload\<close> clears the configuration before anything
  else: the first state it exposes has no configuration, and a reader of \<^verbatim>\<open>gateway\<close>
  there gets an error, not the previous value. The outcome of a \<^verbatim>\<open>reload\<close> does not
  depend on the configuration it started with. A \<^verbatim>\<open>reload\<close> that succeeds was run on
  a loaded controller, its pipeline run from the cleared state succeeded, and it ends
  with the configuration that this run resolved in place: the \<^verbatim>\<open>gateway\<close> getter
  returns the gateway value of that configuration, and that value is the payload of the
  one \<^verbatim>\<open>gateway-update\<close> notification it adds. A \<^verbatim>\<open>reload\<close> whose pipeline run fails
  fails with the same error, and notifies nothing.
\<close>

theorem reload_clears_first:
  "(\<exists>rest. observed (snd (reload env s)) = observed s @ (None, isLoaded s) # rest)
   \<and> gateway (reader (None, isLoaded s))
       = (if isLoaded s then Inl TypeError else Inl NotLoadedError)
   \<and> reload env (s\<lparr>config := c\<rparr>) = reload env s
   \<and> (fst (reload env s) = Inr () \<longrightarrow>
        (\<exists>s1 cfg. loadGatewayConfig env (s\<lparr>config := None\<rparr>) (configFile env) = (Inr (), s1)
             \<and> config s1 = Some cfg
             \<and> isLoaded s
             \<and> reload env s = (Inr (), emit (GatewayUpdateEvent (get_prop cfg ''gateway'')) (suspend s1))
             \<and> config (snd (reload env s)) = Some cfg
             \<and> gateway (snd (reload env s)) = Inr (get_prop cfg ''gateway'')
             \<and> emitted (snd (reload env s))
                 = emitted s @ [GatewayUpdateEvent (get_prop cfg ''gateway'')]))
   \<and> (\<forall>e s1. loadGatewayConfig env (s\<lparr>config := None\<rparr>) (configFile env) = (Inl e, s1) \<longrightarrow>
        fst (reload env s) = Inl e \<and> emitted (snd (reload env s)) = emitted s)"
proof (intro conjI impI allI)
  show "\<exists>rest. observed (snd (reload env s)) = observed s @ (None, isLoaded s) # rest"
    by (rule reload_first)
next
  show "gateway (reader (None, isLoaded s))
       = (if isLoaded s then Inl TypeError else Inl NotLoadedError)"
    by (simp add: gateway_def ensureLoaded_def reader_def)
next
  show "reload env (s\<lparr>config := c\<rparr>) = reload env s"
    by (simp add: reload_def)
next
  assume ok: "fst (reload env s) = Inr ()"
  obtain r s1 where l: "loadGatewayConfig env (s\<lparr>config := None\<rparr>) (configFile env) = (r, s1)"
    by (cases "loadGatewayConfig env (s\<lparr>config := None\<rparr>) (configFile env)")
  from loadGatewayConfig_frame [OF l] have e: "emitted s1 = emitted s"
    and il: "isLoaded s1 = isLoaded s"
    by (simp_all add: frame_def)
  from ok l have r: "r = Inr ()"
    by (auto simp: reload_def Let_def split: sum.splits)
  from ok l r obtain g where g: "gateway (suspend s1) = Inr g"
    and re: "reload env s = (Inr (), emit (GatewayUpdateEvent g) (suspend s1))"
    by (auto simp: reload_def Let_def split: sum.splits)
  from g obtain cfg where cfg: "config s1 = Some cfg" and gv: "g = get_prop cfg ''gateway''"
    and ld: "isLoaded s1"
    by (auto simp: gateway_def ensureLoaded_def suspend_def split: if_splits option.splits)
  have "gateway (emit (GatewayUpdateEvent g) (suspend s1)) = gateway (suspend s1)"
    by (simp add: gateway_def ensureLoaded_def emit_def)
  then have "loadGatewayConfig env (s\<lparr>config := None\<rparr>) (configFile env) = (Inr (), s1)
             \<and> config s1 = Some cfg
             \<and> isLoaded s
             \<and> reload env s = (Inr (), emit (GatewayUpdateEvent (get_prop cfg ''gateway'')) (suspend s1))
             \<and> config (snd (reload env s)) = Some cfg
             \<and> gateway (snd (reload env s)) = Inr (get_prop cfg ''gateway'')
             \<and> emitted (snd (reload env s))
                 = emitted s @ [GatewayUpdateEvent (get_prop cfg ''gateway'')]"
    using g re e il l r cfg gv ld by (simp add: emit_def suspend_def)
  then show "\<exists>s1 cfg. loadGatewayConfig env (s\<lparr>config := None\<rparr>) (configFile env) = (Inr (), s1)
             \<and> config s1 = Some cfg
             \<and> isLoaded s
             \<and> reload env s = (Inr (), emit (GatewayUpdateEvent (get_prop cfg ''gateway'')) (suspend s1))
             \<and> config (snd (reload env s)) = Some cfg
             \<and> gateway (snd (reload env s)) = Inr (get_prop cfg ''gateway'')
             \<and> emitted (snd (reload env s))
                 = emitted s @ [GatewayUpdateEvent (get_prop cfg ''gateway'')]"
    by blast
next
  fix e s1
  assume l: "loadGatewayConfig env (s\<lparr>config := None\<rparr>) (configFile env) = (Inl e, s1)"
  from loadGatewayConfig_frame [OF l] have e: "emitted s1 = emitted s"
    by (simp add: frame_def)
  from l show "fst (reload env s) = Inl e"
    by (simp add: reload_def)
  from l e show "emitted (snd (reload env s)) = emitted s"
    by (simp add: reload_def suspend_def)
qed

lemma changed_reload:
  "fst (reload example_env changed_state) = Inr ()
   \<and> config (snd (reload example_env changed_state))
       = Some (JObj [(''database'', JObj []), (''rootPath'', JStr ''/srv''),
                     (''middlewarePath'', JStr ''/srv/middleware''),
                     (''gateway'',
                      JObj [(''protocol'', JObj [(''http'', JObj [(''listenPort'', JNum 8000)])])])])"
  by code_simp

lemma changed_before:
  "isLoaded changed_state
   \<and> gateway changed_state
       = Inr (Some (JObj [(''protocol'',
                           JObj [(''https'',
                                  JObj [(''privateKey'', JStr ''/srv/key.pem''),
                                        (''certificate'', JStr ''/srv/cert.pem'')])])]))"
  by code_simp

text \<open>
  A loaded controller whose gateway has the TLS files of the first load, over a store
  whose gateway now listens on port 8000: the \<^verbatim>\<open>reload\<close> succeeds, the \<^verbatim>\<open>gateway\<close>
  getter then returns the gateway with port 8000 and no longer the one with the TLS files,
  and the notification carries that new value.
\<close>

theorem reload_clears_first_witness:
  "isLoaded changed_state
   \<and> gateway changed_state
       = Inr (Some (JObj [(''protocol'',
                           JObj [(''https'',
                                  JObj [(''privateKey'', JStr ''/srv/key.pem''),
                                        (''certificate'', JStr ''/srv/cert.pem'')])])]))
   \<and> fst (reload example_env changed_state) = Inr ()
   \<and> gateway (snd (reload example_env changed_state))
       = Inr (Some (JObj [(''protocol'', JObj [(''http'', JObj [(''listenPort'', JNum 8000)])])]))
   \<and> emitted (snd (reload example_env changed_state))
       = emitted changed_state
         @ [GatewayUpdateEvent
              (Some (JObj [(''protocol'', JObj [(''http'', JObj [(''listenPort'', JNum 8000)])])]))]
   \<and> reload example_env (changed_state\<lparr>config := None\<rparr>) = reload example_env changed_state"
proof -
  from reload_clears_first [of example_env changed_state None] changed_reload
  obtain cfg where
    "config (snd (reload example_env changed_state)) = Some cfg"
    "gateway (snd (reload example_env changed_state)) = Inr (get_prop cfg ''gateway'')"
    "emitted (snd (reload example_env changed_state))
       = emitted changed_state @ [GatewayUpdateEvent (get_prop cfg ''gateway'')]"
    "reload example_env (changed_state\<lparr>config := None\<rparr>) = reload example_env changed_state"
    by blast
  then show ?thesis
    using changed_reload changed_before by auto
qed

text \<open>
  A loaded controller whose gateway is readable: during a \<^verbatim>\<open>reload\<close> that succeeds, the
  first observation has no configuration and the \<^verbatim>\<open>gateway\<close> getter throws there.
\<close>

theorem reload_exposes_cleared_counterexample:
  "(let s1 = load example_env tls_state
    in isLoaded s1
       \<and> gateway s1
           = Inr (Some (JObj [(''protocol'',
                               JObj [(''https'',
                                      JObj [(''privateKey'', JStr ''/srv/key.pem''),
                                            (''certificate'', JStr ''/srv/cert.pem'')])])]))
       \<and> fst (reload example_env s1) = Inr ()
       \<and> observed (snd (reload example_env s1)) ! length (observed s1) = (None, True)
       \<and> gateway (reader (observed (snd (reload example_env s1)) ! length (observed s1)))
           = Inl TypeError)"
  by code_simp

end
